theory Spec2Isabelle
  imports Complex_Main "HOL-Library.Multiset"
begin


section \<open>Values shared by all structures\<close>

text \<open>
  A thrown JavaScript exception is a value: \<open>Error\<close> for \<open>new Error(msg)\<close>,
  \<open>TypeError\<close> for \<open>new TypeError(msg)\<close>, \<open>ErrorN a n b\<close> for an \<open>Error\<close> whose
  message is the text \<open>a\<close>, the number \<open>n\<close> and the text \<open>b\<close>.
\<close>

datatype error = Error string | TypeError string | ErrorN string nat string

type_synonym Snowflake = string

text \<open>\<open>a ?? b\<close>: the left operand unless it is null or undefined.\<close>

definition nullish :: "'a option \<Rightarrow> 'a \<Rightarrow> 'a" where
  "nullish v d = (case v of None \<Rightarrow> d | Some x \<Rightarrow> x)"

text \<open>Truthiness of an optional string and of an optional number.\<close>

definition truthyStr :: "string option \<Rightarrow> bool" where
  "truthyStr v = (case v of None \<Rightarrow> False | Some s \<Rightarrow> s \<noteq> [])"

definition truthyNum :: "int option \<Rightarrow> bool" where
  "truthyNum v = (case v of None \<Rightarrow> False | Some n \<Rightarrow> n \<noteq> 0)"

text \<open>\<open>xs[i]\<close> on a JavaScript array: \<open>undefined\<close> (here \<open>None\<close>) out of range.\<close>

definition elemAt :: "'a list \<Rightarrow> nat \<Rightarrow> 'a option" where
  "elemAt xs i = (if i < length xs then Some (xs ! i) else None)"

section \<open>Track.ts\<close>

text \<open>
  \<open>Track\<close>: the constructor copies \<open>data.track\<close> and whatever fields \<open>data.info\<close>
  holds, so author and length may be absent. \<open>TrackPartial\<close>: title and requester, author
  and length optional. Lengths are milliseconds.
\<close>

record Track =
  track :: string
  author_t :: "string option"
  title_t :: string
  length_t :: "int option"
  requester_t :: string

record TrackPartial =
  title_p :: string
  requester_p :: string
  author_p :: "string option"
  length_p :: "int option"

text \<open>A queue entry or search result entry: \<open>Track | TrackPartial\<close>.\<close>

datatype entry = ETrack Track | EPartial TrackPartial

section \<open>Node.ts: construction\<close>

datatype NodeState =
  NS_DISCONNECTED | NS_CONNECTING | NS_RECONNECTING | NS_CONNECTED | NS_DESTROYED

record NodeOptions =
  host :: "string option"
  port :: "int option"
  password :: "string option"
  secure :: "bool option"
  clientName :: "string option"
  requestTimeout :: "int option"
  maxRetrys :: "int option"
  retryDelay :: "int option"
  connectionTimeout :: "int option"

text \<open>
  The fields of a node. \<open>reconnectTimeout\<close> tells whether the retry interval is set,
  \<open>ws\<close> whether a socket object is held, \<open>nodeListeners\<close> whether the listeners
  registered by the constructor (the forwarders to the manager) are still attached.
\<close>

record Node =
  identifier_n :: nat
  nodeOptions :: NodeOptions
  nodeState :: NodeState
  reconnectAttempts :: nat
  reconnectTimeout :: bool
  ws :: bool
  nodeListeners :: bool

text \<open>
  The constructor of \<open>Node\<close>: fills in the defaults, then throws when
  \<open>connectionTimeout > retryDelay\<close>. (The checks that options, identifier and manager
  are defined are excluded by the types.)
\<close>

definition Node_constructor :: "NodeOptions \<Rightarrow> nat \<Rightarrow> error + Node" where
  "Node_constructor opts ident =
    (let ct = nullish (connectionTimeout opts) 15000;
         rd = nullish (retryDelay opts) 15000;
         os = \<lparr> host = Some (nullish (host opts) ''localhost''),
                port = Some (nullish (port opts) 2333),
                password = Some (nullish (password opts) ''youshallnotpass''),
                secure = Some (nullish (secure opts) False),
                clientName = Some (nullish (clientName opts) ''rose-lavalink''),
                requestTimeout = Some (nullish (requestTimeout opts) 15000),
                maxRetrys = Some (nullish (maxRetrys opts) 10),
                retryDelay = Some rd,
                connectionTimeout = Some ct \<rparr>
     in if ct > rd
        then Inl (Error ''Node connection timeout must be greater than the reconnect retry delay'')
        else Inr \<lparr> identifier_n = ident, nodeOptions = os, nodeState = NS_DISCONNECTED,
                   reconnectAttempts = 0, reconnectTimeout = False, ws = False,
                   nodeListeners = True \<rparr>)"

text \<open>The options object \<open>{}\<close>: every field left out.\<close>

definition noNodeOptions :: NodeOptions where
  "noNodeOptions = \<lparr> host = None, port = None, password = None, secure = None,
     clientName = None, requestTimeout = None, maxRetrys = None, retryDelay = None,
     connectionTimeout = None \<rparr>"

section \<open>Constants.ts and the identifier of a search\<close>

datatype Source = youtube | soundcloud

text \<open>The string a \<open>Source\<close> value is: it is the key used on \<open>SOURCE_IDENTIFIERS\<close>.\<close>

fun sourceKey :: "Source \<Rightarrow> string" where
  "sourceKey youtube = ''youtube''"
| "sourceKey soundcloud = ''soundcloud''"

definition SOURCE_IDENTIFIERS :: "(string \<times> string) list" where
  "SOURCE_IDENTIFIERS = [(''youtube'', ''yt''), (''spotify'', ''sc'')]"

text \<open>\<open>URL_REGEX.test(query)\<close> for \<open>/^https?:\/\//\<close>.\<close>

definition URL_REGEX_test :: "string \<Rightarrow> bool" where
  "URL_REGEX_test q = (take 7 q = ''http://'' \<or> take 8 q = ''https://'')"

text \<open>A value inside a template literal: \<open>undefined\<close> prints as the word.\<close>

definition template :: "string option \<Rightarrow> string" where
  "template v = (case v of None \<Rightarrow> ''undefined'' | Some s \<Rightarrow> s)"

text \<open>
  The \<open>identifier\<close> query parameter of the \<open>/loadtracks\<close> request in
  \<open>LavalinkManager.search\<close>.
\<close>

definition loadtracksIdentifier :: "Source \<Rightarrow> string \<Rightarrow> string" where
  "loadtracksIdentifier source query =
    (if URL_REGEX_test query then query
     else template (map_of SOURCE_IDENTIFIERS (sourceKey source)) @ ''search:'' @ query)"

section \<open>LavalinkManager.resolveTrack\<close>

datatype LoadType = TRACK_LOADED | PLAYLIST_LOADED | SEARCH_RESULT | NO_MATCHES | LOAD_FAILED

record SearchResult =
  loadType :: LoadType
  tracks :: "entry list"

text \<open>\<open>search.tracks.filter((t) => t instanceof TrackClass)\<close>.\<close>

fun onlyTracks :: "entry list \<Rightarrow> Track list" where
  "onlyTracks [] = []"
| "onlyTracks (ETrack t # es) = t # onlyTracks es"
| "onlyTracks (EPartial p # es) = onlyTracks es"

text \<open>
  \<open>new RegExp(`^${escaped name}$`, 'i').test(s)\<close>: every character that is special in
  a pattern is escaped, so the test is equality of the two strings after the engine's
  case folding, which is the parameter \<open>canon\<close>.
\<close>

definition regexTestI :: "(char \<Rightarrow> char) \<Rightarrow> string \<Rightarrow> string \<Rightarrow> bool" where
  "regexTestI canon name s = (map canon s = map canon name)"

definition sameAuthor :: "(char \<Rightarrow> char) \<Rightarrow> string \<Rightarrow> Track list \<Rightarrow> Track list" where
  "sameAuthor canon a ts =
     filter (\<lambda>t. list_ex (\<lambda>name. regexTestI canon name (nullish (author_t t) []))
                          [a, a @ '' - Topic'']) ts"

definition sameDuration :: "int option \<Rightarrow> Track list \<Rightarrow> Track list" where
  "sameDuration h ts =
     filter (\<lambda>t. truthyNum (length_t t)
                 \<and> nullish (length_t t) 0 \<ge> nullish h 0 - 2000
                 \<and> nullish (length_t t) 0 \<le> nullish h 0 + 200) ts"

text \<open>The query \<open>`${track.title}${track.author ? ` - ${track.author}` : ''}`\<close>.\<close>

definition resolveQuery :: "TrackPartial \<Rightarrow> string" where
  "resolveQuery tp =
     title_p tp @ (if truthyStr (author_p tp) then '' - '' @ nullish (author_p tp) [] else [])"

text \<open>
  \<open>resolveTrack\<close>. The outcome of \<open>this.search(query, requester)\<close> is the parameter
  \<open>search\<close>: it throws or returns a result.
\<close>

definition resolveTrack ::
  "(char \<Rightarrow> char) \<Rightarrow> (string \<Rightarrow> string \<Rightarrow> error + SearchResult) \<Rightarrow> TrackPartial \<Rightarrow> error + Track"
where
  "resolveTrack canon search tp =
    (case search (resolveQuery tp) (requester_p tp) of
       Inl e \<Rightarrow> Inl e
     | Inr s \<Rightarrow>
        (let ts = onlyTracks (tracks s) in
         if loadType s \<noteq> SEARCH_RESULT \<or> ts = [] then Inl (Error ''No results found'')
         else if truthyStr (author_p tp)
                 \<and> sameAuthor canon (nullish (author_p tp) []) ts \<noteq> []
              then Inr (hd (sameAuthor canon (nullish (author_p tp) []) ts))
         else if truthyNum (length_p tp) \<and> sameDuration (length_p tp) ts \<noteq> []
              then Inr (hd (sameDuration (length_p tp) ts))
         else Inr (hd ts)))"

text \<open>
  The priority order in the words of the specification: a candidate whose author equals
  the hint author or the hint author followed by \<open>- Topic\<close>, without regard to case;
  then a candidate whose duration lies in the window from 2000 ms below to 200 ms above
  the hint; then the first candidate.
\<close>

definition authorMatches :: "(char \<Rightarrow> char) \<Rightarrow> string \<Rightarrow> Track \<Rightarrow> bool" where
  "authorMatches canon a t =
     (map canon (nullish (author_t t) []) = map canon a
      \<or> map canon (nullish (author_t t) []) = map canon (a @ '' - Topic''))"

definition inWindow :: "int \<Rightarrow> Track \<Rightarrow> bool" where
  "inWindow h t = (case length_t t of None \<Rightarrow> False | Some l \<Rightarrow> h - 2000 \<le> l \<and> l \<le> h + 200)"

definition firstOr :: "('a \<Rightarrow> bool) \<Rightarrow> 'a list \<Rightarrow> 'a option \<Rightarrow> 'a option" where
  "firstOr P xs d = (case List.find P xs of Some x \<Rightarrow> Some x | None \<Rightarrow> d)"


section \<open>Player.ts: data\<close>

datatype PlayerState = DISCONNECTED | CONNECTING | CONNECTED | PAUSED | PLAYING | DESTROYED

text \<open>\<open>LoopType = 'off' | 'single' | 'queue'\<close>; the behaviours \<open>'destroy' | 'pause'\<close>.\<close>

datatype LoopType = LoopOff | LoopSingle | LoopQueue

datatype Behavior = BehaviorDestroy | BehaviorPause

record CompletePlayerOptions =
  guildId :: Snowflake
  textChannelId :: Snowflake
  voiceChannelId :: Snowflake
  selfMute :: bool
  selfDeafen :: bool
  becomeSpeaker :: bool
  moveBehavior :: Behavior
  stageMoveBehavior :: Behavior

text \<open>\<open>PlayOptions\<close>; an absent options object is the record with every field absent.\<close>

record PlayOptions =
  startTime :: "int option"
  endTime :: "int option"
  volume_o :: "int option"
  pause_o :: "bool option"

definition noPlayOptions :: PlayOptions where
  "noPlayOptions = \<lparr> startTime = None, endTime = None, volume_o = None, pause_o = None \<rparr>"

text \<open>The voice state data of the gateway, as far as the player reads it.\<close>

record VoiceState =
  channel_id :: "Snowflake option"
  suppress :: bool

text \<open>Payloads written to the node's socket, and the voice state update (op 4) of the gateway.\<close>

datatype frame =
  OpPlay Snowflake string PlayOptions
| OpStop Snowflake
| OpPause Snowflake bool
| OpDestroy Snowflake

datatype gatewayFrame = VoiceStateUpdate Snowflake "Snowflake option" bool bool

text \<open>Events that reach the manager through the forwarders the constructors register.\<close>

datatype event =
  PLAYER_CONNECTED Snowflake
| PLAYER_DESTROYED Snowflake string
| PLAYER_ERROR Snowflake error
| PLAYER_MOVED Snowflake "Snowflake option" "Snowflake option"
| NODE_CONNECTED nat
| NODE_DESTROYED nat string
| NODE_ERROR nat error
| NODE_RECONNECTING nat

text \<open>
  The rest of an asynchronous call that was started and not awaited: it runs in a later
  turn of the event loop. \<open>DisconnectDone\<close> is the part of \<open>_disconnect\<close> after its
  await, \<open>PlayFailed e\<close> the \<open>catch\<close> handler of the \<open>_play\<close> call in \<open>_advanceQueue\<close>,
  \<open>PauseDone\<close> and \<open>ResumeDone\<close> the parts of \<open>pause\<close> and \<open>resume\<close> after their await.
\<close>

datatype task = DisconnectDone | PlayFailed error | PauseDone string | ResumeDone string

text \<open>
  The fields of a player. \<open>node\<close> is the address of its node object. Three fields are
  the model's: \<open>listeners\<close> (the forwarders registered by the constructor are attached),
  \<open>connectListeners\<close> (the once-listeners of a pending \<open>connect()\<close> are attached) and
  \<open>pending\<close> (the started, not awaited calls in the order they were started).
\<close>

record Player =
  currentVoiceChannel :: "Snowflake option"
  filters :: string
  isSpeaker :: "bool option"
  isStage :: "bool option"
  loop :: LoopType
  options :: CompletePlayerOptions
  position :: "int option"
  queue :: "entry list"
  queuePosition :: "nat option"
  state :: PlayerState
  volume :: int
  lastVoiceState :: "VoiceState option"
  sentPausedPlay :: "bool option"
  node :: nat
  listeners :: bool
  connectListeners :: bool
  pending :: "task list"

text \<open>
  What lies outside a player: the node objects by address, the payloads written to their
  sockets, the frames sent to the gateway, the events that reached the manager, the
  manager's tables (\<open>players\<close>: guild to the address of the player object; \<open>nodePool\<close>:
  the keys of \<open>manager.nodes\<close>) and the number of answers the outside world has given.
\<close>

record World =
  nodes :: "nat \<Rightarrow> Node"
  sent :: "(nat \<times> frame) list"
  gatewaySent :: "gatewayFrame list"
  events :: "event list"
  players :: "(Snowflake \<times> nat) list"
  nodePool :: "nat list"
  clock :: nat

text \<open>
  The answers of the outside world, the \<open>k\<close>-th answer for the call made at clock \<open>k\<close>:
  the case folding of the regular expression engine, the outcome of
  \<open>LavalinkManager.search\<close>, the error of a socket write, \<open>Math.random()\<close>, the stage
  permissions (\<open>becomeSpeaker\<close>, \<open>request\<close>) and the error of a request to the REST API.
\<close>

record env =
  Canonicalize :: "char \<Rightarrow> char"
  searchAt :: "nat \<Rightarrow> string \<Rightarrow> string \<Rightarrow> error + SearchResult"
  wsError :: "nat \<Rightarrow> error option"
  mathRandom :: "nat \<Rightarrow> rat"
  stagePermissions :: "nat \<Rightarrow> error + (bool \<times> bool)"
  apiRequest :: "nat \<Rightarrow> error option"

text \<open>
  How an awaited call ends: it returns, it throws, or its promise never settles.
\<close>

datatype completion = Done | Threw error | Hangs

type_synonym outcome = "completion \<times> Player \<times> World"

definition active :: "PlayerState \<Rightarrow> bool" where
  "active s = (s = CONNECTED \<or> s = PAUSED \<or> s = PLAYING)"

definition emitPlayer :: "Player \<Rightarrow> event \<Rightarrow> World \<Rightarrow> World" where
  "emitPlayer p ev w = (if listeners p then w\<lparr>events := events w @ [ev]\<rparr> else w)"

definition emitNode :: "Node \<Rightarrow> event \<Rightarrow> World \<Rightarrow> World" where
  "emitNode n ev w = (if nodeListeners n then w\<lparr>events := events w @ [ev]\<rparr> else w)"

text \<open>The getter \<open>currentTrack\<close>.\<close>

definition currentTrack :: "Player \<Rightarrow> entry option" where
  "currentTrack p = (case queuePosition p of None \<Rightarrow> None | Some i \<Rightarrow> elemAt (queue p) i)"

section \<open>Node.send\<close>

text \<open>
  \<open>send\<close> throws unless the node is connected; then \<open>this.ws?.send(...)\<close> writes the
  payload, and the promise settles by the callback of the write. With no socket the
  promise is never settled.
\<close>

datatype sendResult = Resolved | Rejected error | Unsettled

definition send :: "env \<Rightarrow> nat \<Rightarrow> frame \<Rightarrow> World \<Rightarrow> sendResult \<times> World" where
  "send env nid fr w =
    (let n = nodes w nid in
     if nodeState n \<noteq> NS_CONNECTED
     then (Rejected (Error ''Cannot send payloads before a connection is established''), w)
     else if \<not> ws n then (Unsettled, w)
     else (case wsError env (clock w) of
             Some e \<Rightarrow> (Rejected e, emitNode n (NODE_ERROR nid e) (w\<lparr>clock := Suc (clock w)\<rparr>))
           | None \<Rightarrow> (Resolved, w\<lparr>sent := sent w @ [(nid, fr)], clock := Suc (clock w)\<rparr>)))"

section \<open>Player.ts: the helpers \<open>_stop\<close> and \<open>_play\<close>\<close>

definition u_stop :: "env \<Rightarrow> Player \<Rightarrow> World \<Rightarrow> outcome" where
  "u_stop env p w =
    (case send env (node p) (OpStop (guildId (options p))) w of
       (Resolved, w1) \<Rightarrow> (Done, p\<lparr>position := None, state := CONNECTED\<rparr>, w1)
     | (Rejected e, w1) \<Rightarrow> (Threw e, p, w1)
     | (Unsettled, w1) \<Rightarrow> (Hangs, p, w1))"

text \<open>
  The synchronous part of \<open>_play\<close> after its two checks: the volume option is stored
  (and left out of the payload when it is 100) or the player's volume is added to the
  payload when it is not 100; a stage player that is not a speaker starts paused; a
  paused start is remembered in \<open>sentPausedPlay\<close>. The result is the player and the
  options of the payload.
\<close>

definition playSetup :: "PlayOptions \<Rightarrow> Player \<Rightarrow> Player \<times> PlayOptions" where
  "playSetup opts p =
    (let p1 = (case volume_o opts of Some v \<Rightarrow> p\<lparr>volume := v\<rparr> | None \<Rightarrow> p);
         o1 = (case volume_o opts of
                 Some v \<Rightarrow> if v = 100 then opts\<lparr>volume_o := None\<rparr> else opts
               | None \<Rightarrow> if volume p \<noteq> 100 then opts\<lparr>volume_o := Some (volume p)\<rparr> else opts);
         o2 = (if isStage p1 = Some True \<and> isSpeaker p1 \<noteq> Some True
               then o1\<lparr>pause_o := Some True\<rparr> else o1);
         p2 = (if pause_o o2 = Some True then p1\<lparr>sentPausedPlay := Some True\<rparr> else p1)
     in (p2, o2))"

definition u_play :: "env \<Rightarrow> Track \<Rightarrow> PlayOptions \<Rightarrow> Player \<Rightarrow> World \<Rightarrow> outcome" where
  "u_play env t opts p w =
    (if \<not> active (state p)
     then (Threw (Error ''Cannot play when the player isn't in a connected, paused, or playing state''), p, w)
     else if (case volume_o opts of Some v \<Rightarrow> v < 0 \<or> v > 1000 | None \<Rightarrow> False)
     then (Threw (Error ''Volume must be between 0 and 1000''), p, w)
     else
      (case playSetup opts p of
         (p2, o2) \<Rightarrow>
           (case send env (node p2) (OpPlay (guildId (options p2)) (track t) o2) w of
              (Resolved, w1) \<Rightarrow> (Done, p2, w1)
            | (Rejected e, w1) \<Rightarrow> (Threw e, p2, w1)
            | (Unsettled, w1) \<Rightarrow> (Hangs, p2, w1))))"

text \<open>
  The statement \<open>if (queue[i] instanceof TrackPartial) queue[i] = await
  manager.resolveTrack(queue[i])\<close> of \<open>play\<close>, \<open>skip\<close>, \<open>shuffle\<close> and \<open>_advanceQueue\<close>.
\<close>

definition resolveEntry :: "env \<Rightarrow> nat \<Rightarrow> Player \<Rightarrow> World \<Rightarrow> outcome" where
  "resolveEntry env i p w =
    (case elemAt (queue p) i of
       Some (EPartial tp) \<Rightarrow>
         (case resolveTrack (Canonicalize env) (searchAt env (clock w)) tp of
            Inl e \<Rightarrow> (Threw e, p, w\<lparr>clock := Suc (clock w)\<rparr>)
          | Inr t \<Rightarrow> (Done, p\<lparr>queue := (queue p)[i := ETrack t]\<rparr>, w\<lparr>clock := Suc (clock w)\<rparr>))
     | _ \<Rightarrow> (Done, p, w))"

text \<open>
  The test \<open>e instanceof Track && e.track\<close>: the entry as a track when it passes.
\<close>

definition playable :: "entry option \<Rightarrow> Track option" where
  "playable e = (case e of Some (ETrack t) \<Rightarrow> if track t \<noteq> [] then Some t else None | _ \<Rightarrow> None)"

text \<open>
  The four statements that \<open>play\<close>, \<open>skip(index)\<close> and \<open>shuffle\<close> share: resolve the
  entry at \<open>i\<close>, throw \<open>invalid\<close> unless it is a track with an encoded handle, await
  \<open>_play\<close>, set the queue position.
\<close>

definition playAt :: "env \<Rightarrow> error \<Rightarrow> nat \<Rightarrow> PlayOptions \<Rightarrow> Player \<Rightarrow> World \<Rightarrow> outcome" where
  "playAt env invalid i opts p w =
    (case resolveEntry env i p w of
       (Done, p1, w1) \<Rightarrow>
         (case playable (elemAt (queue p1) i) of
            None \<Rightarrow> (Threw invalid, p1, w1)
          | Some t \<Rightarrow>
             (case u_play env t opts p1 w1 of
                (Done, p2, w2) \<Rightarrow> (Done, p2\<lparr>queuePosition := Some i\<rparr>, w2)
              | other \<Rightarrow> other))
     | other \<Rightarrow> other)"


section \<open>Player.ts: \<open>play\<close>, \<open>_advanceQueue\<close>, \<open>skip\<close>, \<open>shuffle\<close>, \<open>setLoop\<close>\<close>

text \<open>The argument of \<open>play\<close>: one entry or an array of entries.\<close>

datatype playArg = One entry | Many "entry list"

fun added :: "playArg \<Rightarrow> entry list" where
  "added (One e) = [e]"
| "added (Many es) = es"

definition play :: "env \<Rightarrow> playArg \<Rightarrow> PlayOptions \<Rightarrow> Player \<Rightarrow> World \<Rightarrow> outcome" where
  "play env arg opts p w =
    (if \<not> active (state p)
     then (Threw (Error ''Cannot play when the player isn't in a connected, paused, or playing state''), p, w)
     else
      (let p1 = p\<lparr>queue := queue p @ added arg\<rparr> in
       if state p1 = CONNECTED
       then playAt env (TypeError ''Invalid track'') (length (queue p1) - length (added arg)) opts p1 w
       else (Done, p1, w)))"

text \<open>
  The index \<open>_advanceQueue\<close> moves to before it looks at the entry: 0 from null;
  otherwise one more unless the loop is single; 0 instead when there is no entry there
  and the loop is queue.
\<close>

definition advanceIndex :: "Player \<Rightarrow> nat" where
  "advanceIndex p =
    (case queuePosition p of
       None \<Rightarrow> 0
     | Some i \<Rightarrow>
        (let j = (if loop p \<noteq> LoopSingle then Suc i else i)
         in if elemAt (queue p) j = None \<and> loop p = LoopQueue then 0 else j))"

text \<open>
  \<open>_advanceQueue\<close>. It calls itself after an entry that is not playable, without bound,
  so the first argument counts the calls that are allowed: \<open>None\<close> is a run that needs
  more. The \<open>_play\<close> call is not awaited: when it fails, its handler is left pending.
  A throw of \<open>resolveTrack\<close> is not caught.
\<close>

fun u_advanceQueue :: "nat \<Rightarrow> env \<Rightarrow> Player \<Rightarrow> World \<Rightarrow> outcome option" where
  "u_advanceQueue 0 env p w = None"
| "u_advanceQueue (Suc n) env p w =
    (if \<not> active (state p)
     then Some (Done, p, emitPlayer p (PLAYER_ERROR (guildId (options p))
            (Error ''Cannot advance the queue when the player isn't in a connected, paused, or playing state'')) w)
     else
      (let p1 = p\<lparr>queuePosition := Some (advanceIndex p)\<rparr> in
       case currentTrack p1 of
         None \<Rightarrow> Some (Done, p1\<lparr>queuePosition := None\<rparr>, w)
       | Some e \<Rightarrow>
          (case resolveEntry env (advanceIndex p) p1 w of
             (Done, p2, w2) \<Rightarrow>
               (case playable (currentTrack p2) of
                  None \<Rightarrow>
                    u_advanceQueue n env
                      (if loop p2 = LoopSingle
                       then p2\<lparr>queuePosition := Some (Suc (advanceIndex p))\<rparr> else p2)
                      (emitPlayer p2 (PLAYER_ERROR (guildId (options p2))
                         (Error ''Unable to get Track from new queue position while advancing the queue'')) w2)
                | Some t \<Rightarrow>
                   (case u_play env t noPlayOptions p2 w2 of
                      (Threw e, p3, w3) \<Rightarrow> Some (Done, p3\<lparr>pending := pending p3 @ [PlayFailed e]\<rparr>, w3)
                    | (c, p3, w3) \<Rightarrow> Some (Done, p3, w3)))
           | other \<Rightarrow> Some other)))"

definition skip :: "nat \<Rightarrow> env \<Rightarrow> int option \<Rightarrow> Player \<Rightarrow> World \<Rightarrow> outcome option" where
  "skip n env index p w =
    (if \<not> active (state p)
     then Some (Threw (Error ''Cannot skip when the player isn't in a connected, paused, or playing state''), p, w)
     else
      (case u_stop env p w of
         (Done, p1, w1) \<Rightarrow>
           (case index of
              Some i \<Rightarrow>
                if i < 0 \<or> i \<ge> int (length (queue p1)) then Some (Threw (Error ''Invalid index''), p1, w1)
                else Some (playAt env (TypeError ''Invalid track'') (nat i) noPlayOptions p1 w1)
            | None \<Rightarrow> u_advanceQueue n env p1 w1)
       | other \<Rightarrow> Some other))"

text \<open>
  The loop of \<open>shuffle\<close>: \<open>i\<close> is \<open>currentIndex\<close>, \<open>k\<close> the clock. Each round draws
  \<open>randomIndex = Math.floor(Math.random() * currentIndex)\<close>, decrements \<open>currentIndex\<close>
  and swaps the two entries.
\<close>

fun shuffleLoop :: "(nat \<Rightarrow> rat) \<Rightarrow> nat \<Rightarrow> nat \<Rightarrow> entry list \<Rightarrow> entry list" where
  "shuffleLoop rnd k 0 q = q"
| "shuffleLoop rnd k (Suc i) q =
    (let r = nat \<lfloor>rnd k * of_nat (Suc i)\<rfloor>
     in shuffleLoop rnd (Suc k) i (q[i := q ! r, r := q ! i]))"

definition shuffle :: "env \<Rightarrow> Player \<Rightarrow> World \<Rightarrow> outcome" where
  "shuffle env p w =
    (if \<not> active (state p)
     then (Threw (Error ''Cannot shuffle when the player isn't in a connected, paused, or playing state''), p, w)
     else
      (case u_stop env p w of
         (Done, p1, w1) \<Rightarrow>
           playAt env (Error ''Invalid track at new queue position 0'') 0 noPlayOptions
             (p1\<lparr>queue := shuffleLoop (mathRandom env) (clock w1) (length (queue p1)) (queue p1)\<rparr>)
             (w1\<lparr>clock := clock w1 + length (queue p1)\<rparr>)
       | other \<Rightarrow> other))"

definition setLoop :: "LoopType \<Rightarrow> Player \<Rightarrow> World \<Rightarrow> Player \<times> World" where
  "setLoop type p w = (p\<lparr>loop := type\<rparr>, w)"

section \<open>Player.ts: \<open>destroy\<close>, \<open>pause\<close>, \<open>resume\<close>, \<open>_handleMove\<close>\<close>

text \<open>
  \<open>void this._disconnect()\<close>: the frame goes to the gateway now, the two assignments
  after the await are left pending.
\<close>

definition voidDisconnect :: "Player \<Rightarrow> World \<Rightarrow> Player \<times> World" where
  "voidDisconnect p w =
    (p\<lparr>pending := pending p @ [DisconnectDone]\<rparr>,
     w\<lparr>gatewaySent := gatewaySent w @ [VoiceStateUpdate (guildId (options p)) None False False]\<rparr>)"

text \<open>The statement \<open>if (this.currentVoiceChannel) void this._disconnect()\<close>.\<close>

definition leaveIfJoined :: "Player \<Rightarrow> World \<Rightarrow> Player \<times> World" where
  "leaveIfJoined p w = (if truthyStr (currentVoiceChannel p) then voidDisconnect p w else (p, w))"

text \<open>
  The listener \<open>onDestroy\<close> that a pending \<open>connect()\<close> holds on the event DESTROYED:
  it leaves the channel when one is set and emits the error it rejects with.
\<close>

definition onDestroy :: "string \<Rightarrow> Player \<Rightarrow> World \<Rightarrow> Player \<times> World" where
  "onDestroy reason p w =
    (case leaveIfJoined p w of
       (p1, w1) \<Rightarrow>
         (p1, emitPlayer p1 (PLAYER_ERROR (guildId (options p1))
                (Error (''Failed to connect to the voice channel, Player was destroyed: '' @ reason))) w1))"

text \<open>
  \<open>destroy\<close> is synchronous and has no throw of its own: both calls it starts are
  asynchronous and not awaited. \<open>removeListener('RAW', ...)\<close> on the node is outside the
  model. The event reaches the manager through the forwarder, then \<open>onDestroy\<close> when a
  \<open>connect()\<close> is pending; then all listeners are removed and the guild leaves the
  manager's table.
\<close>

definition destroy :: "env \<Rightarrow> string \<Rightarrow> Player \<Rightarrow> World \<Rightarrow> Player \<times> World" where
  "destroy env reason p w =
    (case leaveIfJoined p w of
       (p1, w1) \<Rightarrow>
        (let w2 = snd (send env (node p1) (OpDestroy (guildId (options p1))) w1);
             p2 = p1\<lparr>queue := [], queuePosition := None, position := None, state := DESTROYED\<rparr>;
             w3 = emitPlayer p2 (PLAYER_DESTROYED (guildId (options p2)) reason) w2
         in case (if connectListeners p2 then onDestroy reason p2 w3 else (p2, w3)) of
              (p3, w4) \<Rightarrow>
                (p3\<lparr>listeners := False, connectListeners := False\<rparr>,
                 w4\<lparr>players := filter (\<lambda>(g, a). g \<noteq> guildId (options p3)) (players w4)\<rparr>)))"

text \<open>
  \<open>void this.pause(reason)\<close> and \<open>void this.resume(reason)\<close>: the state check and the
  send happen now; the assignment of the state waits for the send to resolve. (The
  events PAUSED and RESUMED have no forwarder to the manager.)
\<close>

definition voidPause :: "env \<Rightarrow> string \<Rightarrow> Player \<Rightarrow> World \<Rightarrow> Player \<times> World" where
  "voidPause env reason p w =
    (if \<not> active (state p) then (p, w)
     else (case send env (node p) (OpPause (guildId (options p)) True) w of
             (Resolved, w1) \<Rightarrow> (p\<lparr>pending := pending p @ [PauseDone reason]\<rparr>, w1)
           | (other, w1) \<Rightarrow> (p, w1)))"

definition voidResume :: "env \<Rightarrow> string \<Rightarrow> Player \<Rightarrow> World \<Rightarrow> Player \<times> World" where
  "voidResume env reason p w =
    (if \<not> active (state p) then (p, w)
     else (case send env (node p) (OpPause (guildId (options p)) False) w of
             (Resolved, w1) \<Rightarrow> (p\<lparr>pending := pending p @ [ResumeDone reason]\<rparr>, w1)
           | (other, w1) \<Rightarrow> (p, w1)))"

text \<open>The last two statements of \<open>_handleMove\<close>.\<close>

definition recordMove :: "Snowflake option \<Rightarrow> VoiceState \<Rightarrow> Player \<times> World \<Rightarrow> outcome" where
  "recordMove newChannel data pw =
     (Done, (fst pw)\<lparr>currentVoiceChannel := newChannel, lastVoiceState := Some data\<rparr>, snd pw)"

text \<open>
  The stage part of \<open>_handleMove\<close> when the player is playing and was just suppressed:
  pause, read the permissions, then ask to speak or become a speaker. Each await may
  throw; \<open>apiCall\<close> is the awaited PATCH request of either branch.
\<close>

definition apiCall :: "env \<Rightarrow> Player \<Rightarrow> World \<Rightarrow> outcome" where
  "apiCall env p w =
    (case apiRequest env (clock w) of
       Some e \<Rightarrow> (Threw e, p, w\<lparr>clock := Suc (clock w)\<rparr>)
     | None \<Rightarrow> (Done, p, w\<lparr>clock := Suc (clock w)\<rparr>))"

definition requestSpeaker :: "env \<Rightarrow> Player \<Rightarrow> World \<Rightarrow> completion \<times> Player \<times> World" where
  "requestSpeaker env p w =
    (let (p1, w1) = voidPause env ''Moved to the audience'' p w;
         w2 = w1\<lparr>clock := Suc (clock w1)\<rparr>
     in case stagePermissions env (clock w1) of
          Inl e \<Rightarrow> (Threw e, p1, w2)
        | Inr (canSpeak, request) \<Rightarrow>
           if request then apiCall env p1 w2
           else if canSpeak then apiCall env p1 w2
           else (Done, p1, w2))"

text \<open>
  \<open>_handleMove\<close>. Both destroy branches of an active player are \<open>return
  this.destroy(...)\<close>; the destroy of a player that connected to the wrong channel is not.
  The event CONNECTED starts the listener \<open>onConnect\<close> of the pending \<open>connect()\<close>, which
  first removes \<open>onDestroy\<close>; what it does after its first await is outside the model.
\<close>

definition u_handleMove :: "env \<Rightarrow> Snowflake option \<Rightarrow> VoiceState \<Rightarrow> Player \<Rightarrow> World \<Rightarrow> outcome" where
  "u_handleMove env newChannel data p w =
    (let w0 = (if newChannel \<noteq> currentVoiceChannel p
               then emitPlayer p (PLAYER_MOVED (guildId (options p)) (currentVoiceChannel p) newChannel) w
               else w);
         wasCorrect = (Some (voiceChannelId (options p)) = currentVoiceChannel p);
         nowCorrect = (Some (voiceChannelId (options p)) = newChannel);
         wasSuppressed = (case lastVoiceState p of None \<Rightarrow> False | Some v \<Rightarrow> suppress v);
         nowSuppressed = suppress data
     in
     if active (state p) then
       if moveBehavior (options p) = BehaviorDestroy \<and> (\<not> nowCorrect \<or> newChannel = None)
       then (case destroy env ''Player was moved out of the voice channel'' p w0 of
               (p', w') \<Rightarrow> (Done, p', w'))
       else
        (let (p1, w1) =
               (if moveBehavior (options p) = BehaviorPause
                then (if state p = PAUSED \<and> \<not> wasCorrect \<and> nowCorrect
                      then voidResume env ''Moved into the voice channel'' p w0
                      else if state p = PLAYING \<and> wasCorrect \<and> \<not> nowCorrect
                      then voidPause env ''Moved out of the voice channel'' p w0
                      else (p, w0))
                else (p, w0))
         in
         if isStage p1 = Some True \<and> becomeSpeaker (options p1) \<and> lastVoiceState p1 \<noteq> None
         then
          (let p2 = p1\<lparr>isSpeaker := Some (\<not> nowSuppressed)\<rparr> in
           if stageMoveBehavior (options p2) = BehaviorDestroy \<and> \<not> wasSuppressed \<and> nowSuppressed
           then (case destroy env ''Player was moved to the audience'' p2 w1 of
                   (p', w') \<Rightarrow> (Done, p', w'))
           else if stageMoveBehavior (options p2) = BehaviorPause
           then (if state p2 = PAUSED \<and> wasSuppressed \<and> \<not> nowSuppressed
                 then recordMove newChannel data (voidResume env ''Became a speaker'' p2 w1)
                 else if state p2 = PLAYING \<and> \<not> wasSuppressed \<and> nowSuppressed
                 then (case requestSpeaker env p2 w1 of
                         (Done, p3, w3) \<Rightarrow> recordMove newChannel data (p3, w3)
                       | other \<Rightarrow> other)
                 else recordMove newChannel data (p2, w1))
           else recordMove newChannel data (p2, w1))
         else recordMove newChannel data (p1, w1))
     else if state p = CONNECTING then
       if nowCorrect
       then recordMove newChannel data
              (p\<lparr>state := CONNECTED, connectListeners := False\<rparr>,
               emitPlayer p (PLAYER_CONNECTED (guildId (options p))) w0)
       else recordMove newChannel data (destroy env ''Connected to incorrect channel'' p w0)
     else recordMove newChannel data (p, w0))"

text \<open>
  One pending call of the player resumes. The handler of a failed \<open>_play\<close> emits the
  error, steps over the entry when the loop is single (\<open>null++\<close> is 1) and advances.
\<close>

definition runTask :: "nat \<Rightarrow> env \<Rightarrow> task \<Rightarrow> Player \<Rightarrow> World \<Rightarrow> outcome option" where
  "runTask n env t p w =
    (case t of
       DisconnectDone \<Rightarrow> Some (Done, p\<lparr>currentVoiceChannel := None, state := DISCONNECTED\<rparr>, w)
     | PauseDone reason \<Rightarrow> Some (Done, p\<lparr>state := PAUSED\<rparr>, w)
     | ResumeDone reason \<Rightarrow> Some (Done, p\<lparr>state := PLAYING\<rparr>, w)
     | PlayFailed e \<Rightarrow>
         u_advanceQueue n env
           (if loop p = LoopSingle
            then p\<lparr>queuePosition := Some (case queuePosition p of None \<Rightarrow> 1 | Some i \<Rightarrow> Suc i)\<rparr>
            else p)
           (emitPlayer p (PLAYER_ERROR (guildId (options p)) e) w))"


section \<open>Node.ts: \<open>destroy\<close> and the reconnect interval\<close>

text \<open>
  \<open>Node.destroy\<close>: closes and drops the socket, clears the counter and the interval,
  destroys every player of the manager's table whose node has this identifier, then
  sets the state, emits, drops its listeners and leaves the pool. \<open>heap\<close> holds the
  player objects by address.
\<close>

definition destroyPlayers ::
  "env \<Rightarrow> (Snowflake \<times> nat) list \<Rightarrow> (nat \<Rightarrow> Player) \<times> World \<Rightarrow> (nat \<Rightarrow> Player) \<times> World"
where
  "destroyPlayers env bound hw =
     foldl (\<lambda>(h, w) (g, a). case destroy env ''Attached node destroyed'' (h a) w of
                                (p', w') \<Rightarrow> (h(a := p'), w')) hw bound"

definition Node_destroy ::
  "env \<Rightarrow> string \<Rightarrow> nat \<Rightarrow> (nat \<Rightarrow> Player) \<Rightarrow> World \<Rightarrow> (nat \<Rightarrow> Player) \<times> World"
where
  "Node_destroy env reason nid heap w =
    (let n1 = (nodes w nid)\<lparr>ws := False, reconnectAttempts := 0, reconnectTimeout := False\<rparr>;
         w1 = w\<lparr>nodes := (nodes w)(nid := n1)\<rparr>;
         bound = filter (\<lambda>(g, a). identifier_n (nodes w1 (node (heap a))) = identifier_n n1)
                   (players w1);
         (heap2, w2) = destroyPlayers env bound (heap, w1);
         n2 = (nodes w2 nid)\<lparr>nodeState := NS_DESTROYED\<rparr>;
         w3 = emitNode n2 (NODE_DESTROYED nid reason) (w2\<lparr>nodes := (nodes w2)(nid := n2)\<rparr>)
     in (heap2, w3\<lparr>nodes := (nodes w3)(nid := n2\<lparr>nodeListeners := False\<rparr>),
                   nodePool := removeAll nid (nodePool w3)\<rparr>))"

text \<open>\<open>reconnect()\<close>: the state becomes reconnecting and the interval is set.\<close>

definition reconnect :: "nat \<Rightarrow> World \<Rightarrow> World" where
  "reconnect nid w =
     w\<lparr>nodes := (nodes w)(nid := (nodes w nid)\<lparr>nodeState := NS_RECONNECTING, reconnectTimeout := True\<rparr>)\<rparr>"

text \<open>
  The test at the head of the interval's callback:
  \<open>maxRetrys !== 0 && reconnectAttempts >= maxRetrys\<close>.
\<close>

definition capReached :: "Node \<Rightarrow> bool" where
  "capReached n =
     (maxRetrys (nodeOptions n) \<noteq> Some 0
      \<and> (case maxRetrys (nodeOptions n) of None \<Rightarrow> False | Some m \<Rightarrow> int (reconnectAttempts n) \<ge> m))"

text \<open>
  One run of the interval's callback (none once the interval is cleared): at the cap it
  emits the error and destroys the node; otherwise it drops the old socket and calls
  \<open>connect()\<close>, which opens a new socket and keeps the state reconnecting.
\<close>

definition reconnectTick ::
  "env \<Rightarrow> nat \<Rightarrow> (nat \<Rightarrow> Player) \<Rightarrow> World \<Rightarrow> (nat \<Rightarrow> Player) \<times> World"
where
  "reconnectTick env nid heap w =
    (let n = nodes w nid in
     if \<not> reconnectTimeout n then (heap, w)
     else if capReached n
     then Node_destroy env ''Manual destroy'' nid heap
            (emitNode n (NODE_ERROR nid (ErrorN ''Unable to reconnect after '' (reconnectAttempts n) '' attempts.'')) w)
     else
      (let n1 = n\<lparr>ws := False, nodeState := NS_RECONNECTING\<rparr>;
           w1 = emitNode n1 (NODE_RECONNECTING nid) w
       in (heap, w1\<lparr>nodes := (nodes w1)(nid := n1\<lparr>ws := True\<rparr>)\<rparr>)))"

text \<open>
  How a started \<open>connect()\<close> fails: the socket emits an error (the socket is dropped,
  the state stays reconnecting, the error is emitted) or the connection timeout fires
  (the error is emitted). Either way the promise rejects and the handler of
  \<open>reconnect\<close> counts the attempt.
\<close>

datatype failure = SocketError error | TimedOut

definition connectFailed :: "failure \<Rightarrow> nat \<Rightarrow> World \<Rightarrow> World" where
  "connectFailed f nid w =
    (let n = nodes w nid;
         n1 = (case f of
                 SocketError e \<Rightarrow>
                   n\<lparr>ws := False,
                     nodeState := (if nodeState n \<noteq> NS_RECONNECTING then NS_DISCONNECTED else nodeState n)\<rparr>
               | TimedOut \<Rightarrow> n);
         e1 = (case f of SocketError e \<Rightarrow> e
               | TimedOut \<Rightarrow> Error ''Timed out while connecting to the lavalink server'');
         w1 = emitNode n1 (NODE_ERROR nid e1) w
     in w1\<lparr>nodes := (nodes w1)(nid := n1\<lparr>reconnectAttempts := Suc (reconnectAttempts n1)\<rparr>)\<rparr>)"

text \<open>
  A failed reconnect attempt: the callback runs and, when it called \<open>connect()\<close>, that
  call fails. \<open>failedAttempts\<close> is one such attempt for every element of the list.
\<close>

definition failedAttempt ::
  "env \<Rightarrow> nat \<Rightarrow> failure \<Rightarrow> (nat \<Rightarrow> Player) \<times> World \<Rightarrow> (nat \<Rightarrow> Player) \<times> World"
where
  "failedAttempt env nid f hw =
    (let n = nodes (snd hw) nid;
         (h1, w1) = reconnectTick env nid (fst hw) (snd hw)
     in if reconnectTimeout n \<and> \<not> capReached n then (h1, connectFailed f nid w1) else (h1, w1))"

definition failedAttempts ::
  "env \<Rightarrow> nat \<Rightarrow> failure list \<Rightarrow> (nat \<Rightarrow> Player) \<times> World \<Rightarrow> (nat \<Rightarrow> Player) \<times> World"
where
  "failedAttempts env nid fs hw = foldl (\<lambda>s f. failedAttempt env nid f s) hw fs"

section \<open>Properties: the predicates they use\<close>

text \<open>
  The invariant of the queue position: while the player is connected, paused or playing,
  a position that is not null indexes an entry of the queue that is a \<open>Track\<close>.
\<close>

definition isTrackAt :: "entry list \<Rightarrow> nat \<Rightarrow> bool" where
  "isTrackAt q i = (case elemAt q i of Some (ETrack t) \<Rightarrow> True | _ \<Rightarrow> False)"

definition queueInvariant :: "Player \<Rightarrow> bool" where
  "queueInvariant p =
     (active (state p) \<longrightarrow> (case queuePosition p of None \<Rightarrow> True | Some i \<Rightarrow> isTrackAt (queue p) i))"

text \<open>
  The duration test of \<open>resolveTrack\<close> as the code has it: the hint and the candidate's
  length are both numbers other than 0 and the length lies in the window.
\<close>

definition durationMatch :: "int option \<Rightarrow> Track \<Rightarrow> bool" where
  "durationMatch h t =
     (case h of None \<Rightarrow> False
      | Some hh \<Rightarrow> (case length_t t of None \<Rightarrow> False
                    | Some l \<Rightarrow> hh \<noteq> 0 \<and> l \<noteq> 0 \<and> hh - 2000 \<le> l \<and> l \<le> hh + 200))"

text \<open>
  The candidate picked by priority: \<open>pickTrack\<close> with the duration test of the code,
  \<open>pickSpec\<close> with the window of the specification alone.
\<close>

definition pickTrack :: "(char \<Rightarrow> char) \<Rightarrow> TrackPartial \<Rightarrow> Track list \<Rightarrow> Track option" where
  "pickTrack canon tp ts =
     firstOr (\<lambda>t. truthyStr (author_p tp) \<and> authorMatches canon (nullish (author_p tp) []) t) ts
       (firstOr (durationMatch (length_p tp)) ts
          (case ts of [] \<Rightarrow> None | t # _ \<Rightarrow> Some t))"

definition pickSpec :: "(char \<Rightarrow> char) \<Rightarrow> TrackPartial \<Rightarrow> Track list \<Rightarrow> Track option" where
  "pickSpec canon tp ts =
     firstOr (\<lambda>t. truthyStr (author_p tp) \<and> authorMatches canon (nullish (author_p tp) []) t) ts
       (firstOr (\<lambda>t. case length_p tp of None \<Rightarrow> False | Some h \<Rightarrow> inWindow h t) ts
          (case ts of [] \<Rightarrow> None | t # _ \<Rightarrow> Some t))"

text \<open>
  The state of a node \<open>nid\<close> in world \<open>w'\<close> after \<open>k\<close> failed attempts of a reconnect
  that began in world \<open>w0\<close>: the interval is set, the node is reconnecting, its counter
  is \<open>k\<close> higher, and its options, every node's identifier and the manager's tables are
  as they were.
\<close>

definition retrying :: "nat \<Rightarrow> World \<Rightarrow> World \<Rightarrow> nat \<Rightarrow> bool" where
  "retrying nid w0 w' k =
     (players w' = players w0 \<and> nodePool w' = nodePool w0
      \<and> reconnectTimeout (nodes w' nid) \<and> nodeState (nodes w' nid) = NS_RECONNECTING
      \<and> nodeOptions (nodes w' nid) = nodeOptions (nodes w0 nid)
      \<and> reconnectAttempts (nodes w' nid) = reconnectAttempts (nodes w0 nid) + k
      \<and> (\<forall>x. identifier_n (nodes w' x) = identifier_n (nodes w0 x)))"

section \<open>Example values\<close>

text \<open>
  Two tracks, a hint with author and duration, a search that finds the two tracks, a
  world whose every answer is a success, a connected node and a connected player whose
  queue holds a track and an unresolved entry.
\<close>

definition exA :: Track where
  "exA = \<lparr> track = ''QAAA'', author_t = Some ''Other'', title_t = ''Song'',
           length_t = Some 500000, requester_t = ''u'' \<rparr>"

definition exB :: Track where
  "exB = \<lparr> track = ''QBBB'', author_t = Some ''Else'', title_t = ''Song'',
           length_t = Some 0, requester_t = ''u'' \<rparr>"

definition exHint :: TrackPartial where
  "exHint = \<lparr> title_p = ''Song'', requester_p = ''u'', author_p = Some ''Artist'',
              length_p = Some 1000 \<rparr>"

definition exSearch :: "string \<Rightarrow> string \<Rightarrow> error + SearchResult" where
  "exSearch q r = Inr \<lparr> loadType = SEARCH_RESULT, tracks = [ETrack exA, ETrack exB] \<rparr>"

definition exEnv :: env where
  "exEnv = \<lparr> Canonicalize = (\<lambda>c. c), searchAt = (\<lambda>k. exSearch), wsError = (\<lambda>k. None),
             mathRandom = (\<lambda>k. 0), stagePermissions = (\<lambda>k. Inr (True, True)),
             apiRequest = (\<lambda>k. None) \<rparr>"

definition exNode :: Node where
  "exNode = \<lparr> identifier_n = 0,
              nodeOptions = \<lparr> host = Some ''localhost'', port = Some 2333,
                password = Some ''youshallnotpass'', secure = Some False,
                clientName = Some ''rose-lavalink'', requestTimeout = Some 15000,
                maxRetrys = Some 3, retryDelay = Some 30000, connectionTimeout = Some 15000 \<rparr>,
              nodeState = NS_CONNECTED, reconnectAttempts = 0, reconnectTimeout = False,
              ws = True, nodeListeners = True \<rparr>"

definition exWorld :: World where
  "exWorld = \<lparr> nodes = (\<lambda>a. exNode), sent = [], gatewaySent = [], events = [],
               players = [(''G'', 0)], nodePool = [0], clock = 0 \<rparr>"

definition exOptions :: CompletePlayerOptions where
  "exOptions = \<lparr> guildId = ''G'', textChannelId = ''T'', voiceChannelId = ''V'',
                 selfMute = False, selfDeafen = True, becomeSpeaker = True,
                 moveBehavior = BehaviorDestroy, stageMoveBehavior = BehaviorPause \<rparr>"

definition exPlayer :: Player where
  "exPlayer = \<lparr> currentVoiceChannel = Some ''V'', filters = [], isSpeaker = None,
                isStage = None, loop = LoopOff, options = exOptions, position = None,
                queue = [ETrack exA, EPartial exHint], queuePosition = Some 0,
                state = CONNECTED, volume = 100, lastVoiceState = None,
                sentPausedPlay = None, node = 0, listeners = True,
                connectListeners = False, pending = [] \<rparr>"

text \<open>The example player after \<open>destroy()\<close>; a voice state for channel W; the example
  player after \<open>_handleMove\<close> to that channel.\<close>

definition exDestroyed :: "Player \<times> World" where
  "exDestroyed = destroy exEnv ''Manual destroy'' exPlayer exWorld"

definition exVoice :: VoiceState where
  "exVoice = \<lparr> channel_id = Some ''W'', suppress = False \<rparr>"

definition exMoved :: outcome where
  "exMoved = u_handleMove exEnv (Some ''W'') exVoice exPlayer exWorld"

text \<open>
  Three failed attempts; the heap whose every address holds the example player; the
  example world with \<open>maxRetrys = 0\<close>; and a reconnect in a world that fails as in
  \<open>exFailures\<close>, followed by one more run of the interval.
\<close>

definition exFailures :: "failure list" where
  "exFailures = [TimedOut, SocketError (Error ''connect ECONNREFUSED''), TimedOut]"

definition exHeap :: "nat \<Rightarrow> Player" where
  "exHeap = (\<lambda>a. exPlayer)"

definition exUnlimited :: World where
  "exUnlimited = exWorld\<lparr>nodes := (\<lambda>a. exNode\<lparr>nodeOptions := (nodeOptions exNode)\<lparr>maxRetrys := Some 0\<rparr>\<rparr>)\<rparr>"

definition exRetried :: "World \<Rightarrow> (nat \<Rightarrow> Player) \<times> World" where
  "exRetried w =
     (case failedAttempts exEnv 0 exFailures (exHeap, reconnect 0 w) of
        (h1, w1) \<Rightarrow> reconnectTick exEnv 0 h1 w1)"

text \<open>
  An environment in which every search finds nothing; a track with no encoded handle;
  and the example player with the loop on single and that track at the index.
\<close>

definition exNoMatch :: env where
  "exNoMatch = exEnv\<lparr>searchAt := (\<lambda>k q r. Inr \<lparr> loadType = NO_MATCHES, tracks = [] \<rparr>)\<rparr>"



section \<open>The constructor of \<open>Node\<close>\<close>

lemma Node_constructor_succeeds_iff:
  "(\<exists>n. Node_constructor opts i = Inr n)
     = (nullish (connectionTimeout opts) 15000 \<le> nullish (retryDelay opts) 15000)"
  by (auto simp: Node_constructor_def Let_def)

text \<open>
  C4. The claim: construction succeeds only if \<open>connectionTimeout < retryDelay\<close>. The
  constructor throws only when \<open>connectionTimeout > retryDelay\<close>, so equal values pass:
  with no option given both default to 15000 and the node is constructed.
\<close>

theorem Node_constructor_equal_timeouts:
  "\<exists>n. Node_constructor noNodeOptions 0 = Inr n
       \<and> connectionTimeout (nodeOptions n) = Some 15000
       \<and> retryDelay (nodeOptions n) = Some 15000"
  by (simp add: Node_constructor_def noNodeOptions_def nullish_def Let_def)

section \<open>The identifier of a search\<close>

lemma loadtracksIdentifier_url: "URL_REGEX_test q \<Longrightarrow> loadtracksIdentifier src q = q"
  by (simp add: loadtracksIdentifier_def)

lemma loadtracksIdentifier_youtube:
  "\<not> URL_REGEX_test q \<Longrightarrow> loadtracksIdentifier youtube q = ''ytsearch:'' @ q"
  by (simp add: loadtracksIdentifier_def SOURCE_IDENTIFIERS_def template_def)

text \<open>
  C9. The claim: for a query that is not a URL the identifier is the catalog identifier
  of the source, then \<open>search:\<close>, then the query. \<open>SOURCE_IDENTIFIERS\<close> has the keys
  \<open>youtube\<close> and \<open>spotify\<close> and none for \<open>soundcloud\<close>, so for that source the
  identifier starts with the word \<open>undefined\<close>.
\<close>

theorem loadtracksIdentifier_soundcloud:
  "loadtracksIdentifier soundcloud ''hello'' = ''undefinedsearch:hello''"
  by (simp add: loadtracksIdentifier_def URL_REGEX_test_def SOURCE_IDENTIFIERS_def template_def)

section \<open>\<open>resolveTrack\<close>\<close>

lemma find_filter_hd: "List.find P xs = (case filter P xs of [] \<Rightarrow> None | x # _ \<Rightarrow> Some x)"
  by (induction xs) auto

lemma firstOr_filter: "firstOr P xs d = (if filter P xs = [] then d else Some (hd (filter P xs)))"
  by (simp add: firstOr_def find_filter_hd split: list.splits)

lemma sameAuthor_filter: "sameAuthor canon a ts = filter (authorMatches canon a) ts"
  unfolding sameAuthor_def
  by (rule filter_cong) (auto simp: authorMatches_def regexTestI_def)

lemma sameDuration_filter:
  "truthyNum h \<Longrightarrow> sameDuration h ts = filter (durationMatch h) ts"
  unfolding sameDuration_def durationMatch_def truthyNum_def nullish_def
  by (rule filter_cong) (auto split: option.splits)

text \<open>
  C7, as amended. When the search returns, \<open>resolveTrack\<close> throws \<open>No results found\<close>
  if the load type is not a search result or no track is among the results; otherwise
  it returns the first track whose author is the hint author or the hint author followed
  by \<open>- Topic\<close> (without regard to case), else the first track that passes the duration
  test of the code (hint and length not 0, length within 2000 ms below and 200 ms above
  the hint), else the first track.
\<close>

theorem resolveTrack_priority:
  assumes "search (resolveQuery tp) (requester_p tp) = Inr s"
  shows "resolveTrack canon search tp =
          (if loadType s \<noteq> SEARCH_RESULT \<or> onlyTracks (tracks s) = []
           then Inl (Error ''No results found'')
           else (case pickTrack canon tp (onlyTracks (tracks s)) of
                   Some t \<Rightarrow> Inr t
                 | None \<Rightarrow> Inl (Error ''No results found'')))"
proof (cases "loadType s \<noteq> SEARCH_RESULT \<or> onlyTracks (tracks s) = []")
  case True
  then show ?thesis using assms by (auto simp: resolveTrack_def Let_def)
next
  case False
  then obtain t ts where ts: "onlyTracks (tracks s) = t # ts"
    by (cases "onlyTracks (tracks s)") auto
  have nd: "\<not> truthyNum (length_p tp) \<Longrightarrow> filter (durationMatch (length_p tp)) xs = []" for xs
    by (auto simp: durationMatch_def truthyNum_def filter_empty_conv split: option.splits)
  show ?thesis
  proof (cases "truthyStr (author_p tp)")
    case A: True
    show ?thesis
    proof (cases "truthyNum (length_p tp)")
      case True
      then show ?thesis using assms False A ts
        by (simp add: resolveTrack_def Let_def pickTrack_def firstOr_filter
                      sameAuthor_filter sameDuration_filter)
    next
      case N: False
      then show ?thesis using assms False A ts nd[OF N]
        by (simp add: resolveTrack_def Let_def pickTrack_def firstOr_filter sameAuthor_filter)
    qed
  next
    case A: False
    show ?thesis
    proof (cases "truthyNum (length_p tp)")
      case True
      then show ?thesis using assms False A ts
        by (simp add: resolveTrack_def Let_def pickTrack_def firstOr_filter sameDuration_filter)
    next
      case N: False
      then show ?thesis using assms False A ts nd[OF N]
        by (simp add: resolveTrack_def Let_def pickTrack_def firstOr_filter)
    qed
  qed
qed

text \<open>
  The theorem at the example: the search returns two tracks, neither by the hint's
  author; the second has length 0 and fails the duration test, so the first is returned.
\<close>

theorem resolveTrack_priority_witness:
  "exSearch (resolveQuery exHint) (requester_p exHint)
     = Inr \<lparr> loadType = SEARCH_RESULT, tracks = [ETrack exA, ETrack exB] \<rparr>
   \<and> resolveTrack (\<lambda>c. c) exSearch exHint = Inr exA"
  using resolveTrack_priority [of exSearch exHint
          "\<lparr> loadType = SEARCH_RESULT, tracks = [ETrack exA, ETrack exB] \<rparr>" "\<lambda>c. c"]
  by (simp add: exSearch_def exHint_def exA_def exB_def pickTrack_def firstOr_def
        authorMatches_def durationMatch_def truthyStr_def nullish_def)

text \<open>
  The claim as stated fails there: with the hint at 1000 ms the window runs from -1000
  to 1200 ms and holds the second track's length 0, so by the window alone the second
  track is picked; \<open>resolveTrack\<close> returns the first.
\<close>

theorem resolveTrack_window_counterexample:
  "pickSpec (\<lambda>c. c) exHint [exA, exB] = Some exB
   \<and> resolveTrack (\<lambda>c. c) exSearch exHint = Inr exA
   \<and> exA \<noteq> exB"
  by (simp add: pickSpec_def firstOr_def authorMatches_def inWindow_def truthyStr_def nullish_def
        resolveTrack_def resolveQuery_def exSearch_def exHint_def exA_def exB_def Let_def
        sameAuthor_def sameDuration_def regexTestI_def truthyNum_def)

section \<open>\<open>setLoop\<close>\<close>

text \<open>
  C10. \<open>setLoop\<close> has no state check and no throw: in every state of the player it
  returns, leaves the world as it is (no payload is sent), sets the loop field and
  changes no other field of the player.
\<close>

theorem setLoop_frame:
  "snd (setLoop type p w) = w
   \<and> loop (fst (setLoop type p w)) = type
   \<and> queue (fst (setLoop type p w)) = queue p
   \<and> queuePosition (fst (setLoop type p w)) = queuePosition p
   \<and> state (fst (setLoop type p w)) = state p
   \<and> position (fst (setLoop type p w)) = position p
   \<and> volume (fst (setLoop type p w)) = volume p
   \<and> filters (fst (setLoop type p w)) = filters p
   \<and> fst (setLoop type p w) = p\<lparr>loop := type\<rparr>"
  by (simp add: setLoop_def)

section \<open>The operations at the example values\<close>


lemmas ex_defs = exEnv_def exWorld_def exPlayer_def exNode_def exOptions_def exSearch_def
  exHint_def exA_def exB_def

lemmas op_defs = playAt_def resolveEntry_def u_play_def playSetup_def send_def u_stop_def
  playable_def elemAt_def active_def noPlayOptions_def currentTrack_def advanceIndex_def
  resolveTrack_def resolveQuery_def sameAuthor_def sameDuration_def regexTestI_def
  truthyStr_def truthyNum_def nullish_def emitPlayer_def Let_def

lemma ex_inv: "queueInvariant exPlayer"
  by (simp add: queueInvariant_def isTrackAt_def elemAt_def exPlayer_def)

lemma ex_play: "fst (play exEnv (One (ETrack exB)) noPlayOptions exPlayer exWorld) = Done"
  by (simp add: play_def ex_defs op_defs)

lemma ex_advance: "map_option fst (u_advanceQueue (Suc 0) exEnv exPlayer exWorld) = Some Done"
  by (simp add: ex_defs op_defs)

lemma ex_skip: "map_option fst (skip (Suc 0) exEnv None exPlayer exWorld) = Some Done"
  by (simp add: skip_def ex_defs op_defs)

lemma ex_shuffle: "fst (shuffle exEnv exPlayer exWorld) = Done"
  by (simp add: shuffle_def ex_defs op_defs numeral_2_eq_2)

lemma ex_shuffle_queue: "queue (fst (snd (shuffle exEnv exPlayer exWorld))) = [ETrack exA, ETrack exA]"
  by (simp add: shuffle_def ex_defs op_defs numeral_2_eq_2)

section \<open>The player: what each helper leaves unchanged\<close>

lemma send_frame:
  "send env nid fr w = (r, w') \<Longrightarrow>
     nodes w' = nodes w \<and> players w' = players w \<and> gatewaySent w' = gatewaySent w
     \<and> nodePool w' = nodePool w"
  by (auto simp: send_def Let_def emitNode_def split: if_splits option.splits)

lemma playSetup_frame:
  "playSetup opts p = (p', o') \<Longrightarrow>
     queue p' = queue p \<and> queuePosition p' = queuePosition p \<and> state p' = state p
     \<and> loop p' = loop p \<and> options p' = options p \<and> pending p' = pending p
     \<and> node p' = node p \<and> listeners p' = listeners p"
  by (auto simp: playSetup_def Let_def split: option.splits if_splits)

lemma u_play_frame:
  "u_play env t opts p w = (c, p', w') \<Longrightarrow>
     queue p' = queue p \<and> queuePosition p' = queuePosition p \<and> state p' = state p
     \<and> loop p' = loop p \<and> options p' = options p \<and> pending p' = pending p
     \<and> node p' = node p \<and> listeners p' = listeners p"
  unfolding u_play_def
  by (auto split: if_splits prod.splits sendResult.splits dest: playSetup_frame)

lemma u_stop_frame:
  "u_stop env p w = (c, p', w') \<Longrightarrow>
     queue p' = queue p \<and> queuePosition p' = queuePosition p
     \<and> loop p' = loop p \<and> options p' = options p \<and> pending p' = pending p
     \<and> node p' = node p \<and> listeners p' = listeners p
     \<and> (c = Done \<longrightarrow> state p' = CONNECTED)"
  by (auto simp: u_stop_def split: prod.splits sendResult.splits)

lemma resolveEntry_frame:
  "resolveEntry env i p w = (c, p', w') \<Longrightarrow>
     queuePosition p' = queuePosition p \<and> state p' = state p \<and> loop p' = loop p
     \<and> options p' = options p \<and> pending p' = pending p \<and> node p' = node p
     \<and> listeners p' = listeners p \<and> length (queue p') = length (queue p) \<and> c \<noteq> Hangs"
  by (auto simp: resolveEntry_def split: option.splits entry.splits sum.splits)

lemma resolveEntry_queue:
  "resolveEntry env i p w = (Done, p', w') \<Longrightarrow>
     (queue p' = queue p \<and> w' = w \<and> (\<forall>tp. elemAt (queue p) i \<noteq> Some (EPartial tp)))
     \<or> (\<exists>t tp. queue p' = (queue p)[i := ETrack t] \<and> elemAt (queue p) i = Some (EPartial tp)
            \<and> resolveTrack (Canonicalize env) (searchAt env (clock w)) tp = Inr t)"
  by (auto simp: resolveEntry_def split: option.splits entry.splits sum.splits)

lemma playable_Some: "playable e = Some t \<Longrightarrow> e = Some (ETrack t) \<and> track t \<noteq> []"
  by (auto simp: playable_def split: option.splits entry.splits if_splits)

lemma isTrackAt_append: "isTrackAt q j \<Longrightarrow> isTrackAt (q @ xs) j"
  by (auto simp: isTrackAt_def elemAt_def nth_append split: option.splits entry.splits if_splits)

lemma playAt_Done:
  assumes "playAt env invalid i opts p w = (Done, p', w')"
  shows "queuePosition p' = Some i \<and> state p' = state p \<and> isTrackAt (queue p') i
         \<and> playable (elemAt (queue p') i) \<noteq> None"
proof -
  from assms obtain p1 w1 where r: "resolveEntry env i p w = (Done, p1, w1)"
    by (auto simp: playAt_def split: prod.splits completion.splits option.splits)
  from assms r obtain t where t: "playable (elemAt (queue p1) i) = Some t"
    by (auto simp: playAt_def split: prod.splits completion.splits option.splits)
  from assms r t obtain p2 where u: "u_play env t opts p1 w1 = (Done, p2, w')"
     and p': "p' = p2\<lparr>queuePosition := Some i\<rparr>"
    by (auto simp: playAt_def split: prod.splits completion.splits option.splits)
  from u_play_frame[OF u] resolveEntry_frame[OF r] playable_Some[OF t] t p'
  show ?thesis by (simp add: isTrackAt_def)
qed

lemma play_inv:
  assumes "queueInvariant p" "play env arg opts p w = (Done, p', w')"
  shows "queueInvariant p'"
proof (cases "state p = CONNECTED")
  case True
  with assms(2) have "playAt env (TypeError ''Invalid track'')
        (length (queue p @ added arg) - length (added arg)) opts (p\<lparr>queue := queue p @ added arg\<rparr>) w = (Done, p', w')"
    by (simp add: play_def Let_def active_def split: if_splits)
  from playAt_Done[OF this] show ?thesis by (simp add: queueInvariant_def)
next
  case False
  with assms(2) have "p' = p\<lparr>queue := queue p @ added arg\<rparr>"
    by (simp add: play_def Let_def split: if_splits)
  with assms(1) show ?thesis
    by (auto simp: queueInvariant_def isTrackAt_append split: option.splits)
qed

lemma advance_established:
  "u_advanceQueue n env p w = Some (Done, p', w') \<Longrightarrow> queueInvariant p'"
proof (induction n arbitrary: p w)
  case 0
  then show ?case by simp
next
  case (Suc n)
  show ?case
  proof (cases "active (state p)")
    case False
    with Suc.prems show ?thesis by (auto simp: queueInvariant_def)
  next
    case act: True
    let ?p1 = "p\<lparr>queuePosition := Some (advanceIndex p)\<rparr>"
    show ?thesis
    proof (cases "currentTrack ?p1")
      case None
      with Suc.prems act show ?thesis by (auto simp: queueInvariant_def Let_def)
    next
      case (Some e)
      obtain c p2 w2 where r: "resolveEntry env (advanceIndex p) ?p1 w = (c, p2, w2)"
        by (cases "resolveEntry env (advanceIndex p) ?p1 w") auto
      from Suc.prems act Some r have c: "c = Done"
        by (cases c) (auto simp: Let_def)
      note fr = resolveEntry_frame[OF r]
      show ?thesis
      proof (cases "playable (currentTrack p2)")
        case None
        with Suc.prems act Some r c
        have "u_advanceQueue n env
                (if loop p2 = LoopSingle then p2\<lparr>queuePosition := Some (Suc (advanceIndex p))\<rparr> else p2)
                (emitPlayer p2 (PLAYER_ERROR (guildId (options p2))
                   (Error ''Unable to get Track from new queue position while advancing the queue'')) w2)
              = Some (Done, p', w')"
          by (simp add: Let_def)
        from Suc.IH[OF this] show ?thesis .
      next
        case (Some t)
        obtain c3 p3 w3 where u: "u_play env t noPlayOptions p2 w2 = (c3, p3, w3)"
          by (cases "u_play env t noPlayOptions p2 w2") auto
        note uf = u_play_frame[OF u]
        from Suc.prems act \<open>currentTrack ?p1 = Some e\<close> r c Some u
        have "p' = p3 \<or> (\<exists>e. p' = p3\<lparr>pending := pending p3 @ [PlayFailed e]\<rparr>)"
          by (cases c3) (auto simp: Let_def)
        moreover from playable_Some[OF Some] uf fr
        have "queueInvariant p3"
          by (auto simp: queueInvariant_def currentTrack_def isTrackAt_def split: option.splits)
        ultimately show ?thesis by (auto simp: queueInvariant_def split: option.splits)
      qed
    qed
  qed
qed

lemma skip_inv:
  assumes "skip n env index p w = Some (Done, p', w')"
  shows "queueInvariant p'"
proof -
  from assms have act: "active (state p)" by (auto simp: skip_def split: if_splits)
  obtain c p1 w1 where s: "u_stop env p w = (c, p1, w1)" by (cases "u_stop env p w") auto
  from assms act s have c: "c = Done" by (cases c) (auto simp: skip_def)
  show ?thesis
  proof (cases index)
    case None
    with assms act s c have "u_advanceQueue n env p1 w1 = Some (Done, p', w')"
      by (simp add: skip_def)
    then show ?thesis by (rule advance_established)
  next
    case (Some i)
    with assms act s c have "playAt env (TypeError ''Invalid track'') (nat i) noPlayOptions p1 w1 = (Done, p', w')"
      by (auto simp: skip_def split: if_splits)
    from playAt_Done[OF this] show ?thesis by (simp add: queueInvariant_def)
  qed
qed

lemma shuffle_inv:
  assumes "shuffle env p w = (Done, p', w')"
  shows "queueInvariant p'"
proof -
  from assms have act: "active (state p)" by (auto simp: shuffle_def split: if_splits)
  obtain c p1 w1 where s: "u_stop env p w = (c, p1, w1)" by (cases "u_stop env p w") auto
  from assms act s have c: "c = Done" by (cases c) (auto simp: shuffle_def)
  with assms act s have "playAt env (Error ''Invalid track at new queue position 0'') 0 noPlayOptions
             (p1\<lparr>queue := shuffleLoop (mathRandom env) (clock w1) (length (queue p1)) (queue p1)\<rparr>)
             (w1\<lparr>clock := clock w1 + length (queue p1)\<rparr>) = (Done, p', w')"
    by (simp add: shuffle_def)
  from playAt_Done[OF this] show ?thesis by (simp add: queueInvariant_def)
qed

lemma runTask_PlayFailed_inv:
  "runTask n env (PlayFailed e) p w = Some (Done, p', w') \<Longrightarrow> queueInvariant p'"
  by (auto simp: runTask_def intro: advance_established)

text \<open>
  Whenever \<open>play\<close>, \<open>skip\<close>, \<open>shuffle\<close> or the queue advance (called directly or from
  the handler of a failed play) returns without a throw on a player that satisfies the
  invariant, the player satisfies it afterwards.
\<close>

lemma queueInvariant_kept_on_return:
  assumes "queueInvariant p"
  shows "(play env arg opts p w = (Done, p', w') \<longrightarrow> queueInvariant p')
       \<and> (skip n env index p w = Some (Done, p', w') \<longrightarrow> queueInvariant p')
       \<and> (shuffle env p w = (Done, p', w') \<longrightarrow> queueInvariant p')
       \<and> (u_advanceQueue n env p w = Some (Done, p', w') \<longrightarrow> queueInvariant p')
       \<and> (runTask n env (PlayFailed e) p w = Some (Done, p', w') \<longrightarrow> queueInvariant p')"
  using assms
  by (auto intro: play_inv skip_inv shuffle_inv advance_established runTask_PlayFailed_inv)

text \<open>
  It is lost when \<open>resolveTrack\<close> throws: the queue advance has moved the position to the
  unresolved entry before it resolves it, nothing catches the throw, and the advance
  throws with the position left on that entry.
\<close>

lemma advanceQueue_unresolved_throws:
  assumes "active (state p)"
      and "elemAt (queue p) (advanceIndex p) = Some (EPartial tp)"
      and "resolveTrack (Canonicalize env) (searchAt env (clock w)) tp = Inl e"
  shows "u_advanceQueue (Suc n) env p w =
           Some (Threw e, p\<lparr>queuePosition := Some (advanceIndex p)\<rparr>, w\<lparr>clock := Suc (clock w)\<rparr>)
         \<and> \<not> queueInvariant (p\<lparr>queuePosition := Some (advanceIndex p)\<rparr>)"
  using assms
  by (simp add: currentTrack_def resolveEntry_def queueInvariant_def isTrackAt_def Let_def)

text \<open>
  C1. The invariant (a connected, paused or playing player has its queue position null
  or on a \<open>Track\<close> of the queue, never on a \<open>TrackPartial\<close>) does not hold after every
  \<open>skip\<close> and \<open>shuffle\<close>. The example player is connected with the position 0 on a
  track and an unresolved entry after it, and every search finds nothing. \<open>skip\<close>, which
  runs the queue advance, throws the error of \<open>resolveTrack\<close> and leaves the player
  connected with the position 1 on the unresolved entry. \<open>shuffle\<close> (every draw 0)
  brings the unresolved entry to the front, throws the same error and leaves the player
  connected with the position 0 on the unresolved entry.
\<close>

theorem queuePosition_left_on_unresolved:
  "state exPlayer = CONNECTED \<and> queuePosition exPlayer = Some 0 \<and> isTrackAt (queue exPlayer) 0
   \<and> (case skip (Suc 0) exNoMatch None exPlayer exWorld of
         Some (c, p', w') \<Rightarrow>
           c = Threw (Error ''No results found'') \<and> state p' = CONNECTED
           \<and> queuePosition p' = Some (Suc 0)
           \<and> elemAt (queue p') (Suc 0) = Some (EPartial exHint)
           \<and> \<not> isTrackAt (queue p') (Suc 0)
       | None \<Rightarrow> False)
   \<and> (case shuffle exNoMatch exPlayer exWorld of
         (c, p', w') \<Rightarrow>
           c = Threw (Error ''No results found'') \<and> state p' = CONNECTED
           \<and> queuePosition p' = Some 0
           \<and> elemAt (queue p') 0 = Some (EPartial exHint)
           \<and> \<not> isTrackAt (queue p') 0)"
  by (simp add: exNoMatch_def skip_def shuffle_def isTrackAt_def ex_defs op_defs numeral_2_eq_2)

section \<open>The queue advance\<close>




lemma advance_playable:
  assumes "active (state p)" "playable (elemAt (queue p) (advanceIndex p)) = Some t"
  shows "\<exists>p' w'. u_advanceQueue (Suc n) env p w = Some (Done, p', w')
           \<and> queuePosition p' = Some (advanceIndex p) \<and> queue p' = queue p"
proof -
  let ?p1 = "p\<lparr>queuePosition := Some (advanceIndex p)\<rparr>"
  from playable_Some[OF assms(2)] have e: "elemAt (queue p) (advanceIndex p) = Some (ETrack t)" by simp
  then have r: "resolveEntry env (advanceIndex p) ?p1 w = (Done, ?p1, w)"
    by (simp add: resolveEntry_def)
  obtain c3 p3 w3 where u: "u_play env t noPlayOptions ?p1 w = (c3, p3, w3)"
    by (cases "u_play env t noPlayOptions ?p1 w") auto
  from u_play_frame[OF u] have f: "queue p3 = queue p" "queuePosition p3 = Some (advanceIndex p)"
    by simp_all
  from assms e r u f show ?thesis
    by (cases c3) (simp_all add: currentTrack_def Let_def)
qed

subsection \<open>What \<open>send\<close>, \<open>_stop\<close> and \<open>_play\<close> do when they return\<close>

lemma send_Resolved:
  "send env nid fr w = (Resolved, w') \<Longrightarrow>
     w' = w\<lparr>sent := sent w @ [(nid, fr)], clock := Suc (clock w)\<rparr>"
  by (auto simp: send_def Let_def split: if_splits option.splits)

lemma u_stop_Done:
  "u_stop env p w = (Done, p', w') \<Longrightarrow>
     p' = p\<lparr>position := None, state := CONNECTED\<rparr>
     \<and> w' = w\<lparr>sent := sent w @ [(node p, OpStop (guildId (options p)))], clock := Suc (clock w)\<rparr>"
  by (auto simp: u_stop_def split: prod.splits sendResult.splits dest: send_Resolved)

lemma playSetup_none:
  "playSetup noPlayOptions p =
     ((if isStage p = Some True \<and> isSpeaker p \<noteq> Some True then p\<lparr>sentPausedPlay := Some True\<rparr> else p),
      snd (playSetup noPlayOptions p))"
  by (simp add: playSetup_def noPlayOptions_def Let_def)



text \<open>\<open>_play\<close> with no options on an active player: its outcome is that of the send.\<close>

lemma u_play_none:
  assumes "active (state p)"
  shows "u_play env t noPlayOptions p w =
    (case fst (send env (node p) (OpPlay (guildId (options p)) (track t) (snd (playSetup noPlayOptions p))) w) of
       Resolved \<Rightarrow> Done | Rejected e \<Rightarrow> Threw e | Unsettled \<Rightarrow> Hangs,
     fst (playSetup noPlayOptions p),
     snd (send env (node p) (OpPlay (guildId (options p)) (track t) (snd (playSetup noPlayOptions p))) w))"
proof -
  obtain p2 o2 where ps: "playSetup noPlayOptions p = (p2, o2)" by (cases "playSetup noPlayOptions p") auto
  from playSetup_frame[OF ps] have f: "node p2 = node p" "options p2 = options p" by simp_all
  obtain r w1 where s: "send env (node p) (OpPlay (guildId (options p)) (track t) o2) w = (r, w1)"
    by (cases "send env (node p) (OpPlay (guildId (options p)) (track t) o2) w") auto
  have v: "volume_o noPlayOptions = None" by (simp add: noPlayOptions_def)
  show ?thesis
    unfolding u_play_def using assms ps f s v by (cases r) simp_all
qed












section \<open>\<open>shuffle\<close>\<close>



lemma random_index_bound:
  fixes x :: rat
  assumes "0 \<le> x" "x < 1"
  shows "nat \<lfloor>x * of_nat (Suc i)\<rfloor> < Suc i"
proof -
  have "x * of_nat (Suc i) < of_nat (Suc i)"
    using assms by (simp add: mult_less_cancel_right2 del: of_nat_Suc)
  then have "\<lfloor>x * of_nat (Suc i)\<rfloor> < int (Suc i)"
    by (simp add: floor_less_iff del: of_nat_Suc)
  then show ?thesis by linarith
qed

lemma shuffleLoop_mset:
  assumes "\<forall>k. 0 \<le> rnd k \<and> rnd k < 1"
  shows "i \<le> length q \<Longrightarrow> mset (shuffleLoop rnd k i q) = mset q"
proof (induction i arbitrary: k q)
  case 0
  then show ?case by simp
next
  case (Suc i)
  let ?r = "nat \<lfloor>rnd k * of_nat (Suc i)\<rfloor>"
  from assms have "?r < Suc i" by (intro random_index_bound) auto
  with Suc.prems have r: "?r < length q" and i: "i < length q" by auto
  have "mset (q[i := q ! ?r, ?r := q ! i]) = mset q"
    using mset_swap[OF r i] .
  moreover have "i \<le> length (q[i := q ! ?r, ?r := q ! i])" using i by simp
  ultimately show ?case using Suc.IH[of "q[i := q ! ?r, ?r := q ! i]" "Suc k"]
    by (simp add: Let_def del: of_nat_Suc)
qed

lemma playSetup_snd_cong:
  "volume p = volume q \<Longrightarrow> isStage p = isStage q \<Longrightarrow> isSpeaker p = isSpeaker q \<Longrightarrow>
   snd (playSetup noPlayOptions p) = snd (playSetup noPlayOptions q)"
  by (simp add: playSetup_def noPlayOptions_def Let_def)

lemma resolveEntry_more:
  "resolveEntry env i p w = (c, p', w') \<Longrightarrow>
     volume p' = volume p \<and> isStage p' = isStage p \<and> isSpeaker p' = isSpeaker p
     \<and> sent w' = sent w"
  by (auto simp: resolveEntry_def split: option.splits entry.splits sum.splits)

lemma u_play_Done:
  assumes a: "active (state p)" and u: "u_play env t noPlayOptions p w = (Done, p', w')"
  shows "sent w' = sent w @ [(node p, OpPlay (guildId (options p)) (track t) (snd (playSetup noPlayOptions p)))]"
proof -
  let ?s = "send env (node p) (OpPlay (guildId (options p)) (track t) (snd (playSetup noPlayOptions p))) w"
  from u[unfolded u_play_none[OF a]] have r: "fst ?s = Resolved" and w': "w' = snd ?s"
    by (auto split: sendResult.splits)
  then have "?s = (Resolved, w')" by (metis prod.collapse)
  from send_Resolved[OF this] show ?thesis by simp
qed

text \<open>
  C6, as amended. When \<open>shuffle\<close> returns and every draw of \<open>Math.random\<close> lies in
  [0, 1), the queue is the permutation \<open>q\<close> of the queue before that the swaps produce,
  except that the entry at position 0, when it was unresolved, has been replaced by the
  track \<open>resolveTrack\<close> returned for it; the entry at position 0 is a track \<open>t\<close> with an
  encoded handle, the stop frame and then the play frame of \<open>t\<close> have been sent to the
  player's node, the queue position is 0 and the length is unchanged.
\<close>

theorem shuffle_permutes_then_resolves:
  assumes "shuffle env p w = (Done, p', w')"
      and "\<forall>k. 0 \<le> mathRandom env k \<and> mathRandom env k < 1"
  shows "\<exists>q t. q = shuffleLoop (mathRandom env) (Suc (clock w)) (length (queue p)) (queue p)
               \<and> mset q = mset (queue p)
               \<and> queue p' = q[0 := ETrack t]
               \<and> track t \<noteq> []
               \<and> (elemAt q 0 = Some (ETrack t)
                   \<or> (\<exists>tp. elemAt q 0 = Some (EPartial tp)
                         \<and> resolveTrack (Canonicalize env)
                              (searchAt env (Suc (clock w) + length (queue p))) tp = Inr t))
               \<and> queuePosition p' = Some 0
               \<and> length (queue p') = length (queue p)
               \<and> sent w' = sent w @ [(node p, OpStop (guildId (options p))),
                                      (node p, OpPlay (guildId (options p)) (track t)
                                                 (snd (playSetup noPlayOptions p)))]"
proof -
  from assms have act: "active (state p)" by (auto simp: shuffle_def split: if_splits)
  obtain c p1 w1 where s: "u_stop env p w = (c, p1, w1)" by (cases "u_stop env p w") auto
  from assms act s have c: "c = Done" by (cases c) (auto simp: shuffle_def)
  from u_stop_Done[OF s[unfolded c]]
  have p1: "p1 = p\<lparr>position := None, state := CONNECTED\<rparr>"
   and w1: "w1 = w\<lparr>sent := sent w @ [(node p, OpStop (guildId (options p)))], clock := Suc (clock w)\<rparr>"
    by simp_all
  let ?q = "shuffleLoop (mathRandom env) (Suc (clock w)) (length (queue p)) (queue p)"
  let ?p = "p1\<lparr>queue := ?q\<rparr>"
  let ?w = "w1\<lparr>clock := Suc (clock w) + length (queue p)\<rparr>"
  from assms act s c p1 w1
  have pa: "playAt env (Error ''Invalid track at new queue position 0'') 0 noPlayOptions ?p ?w = (Done, p', w')"
    by (simp add: shuffle_def)
  have ms: "mset ?q = mset (queue p)"
    using shuffleLoop_mset[OF assms(2), of "length (queue p)" "queue p" "Suc (clock w)"] by simp
  from pa obtain p2 w2 where r: "resolveEntry env 0 ?p ?w = (Done, p2, w2)"
    by (auto simp: playAt_def split: prod.splits completion.splits option.splits)
  from pa r obtain t where t: "playable (elemAt (queue p2) 0) = Some t"
    by (auto simp: playAt_def split: prod.splits completion.splits option.splits)
  from pa r t obtain p3 where u: "u_play env t noPlayOptions p2 w2 = (Done, p3, w')"
     and p': "p' = p3\<lparr>queuePosition := Some 0\<rparr>"
    by (auto simp: playAt_def split: prod.splits completion.splits option.splits)
  from u_play_frame[OF u] p' have qp: "queue p' = queue p2" "queuePosition p' = Some 0" by simp_all
  from playable_Some[OF t] have e2: "elemAt (queue p2) 0 = Some (ETrack t)" and tt: "track t \<noteq> []" by simp_all
  note rf = resolveEntry_frame[OF r]
  note rm = resolveEntry_more[OF r]
  from rf p1 have a2: "active (state p2)" and n2: "node p2 = node p" "options p2 = options p"
    by (simp_all add: active_def)
  from rm p1 have "snd (playSetup noPlayOptions p2) = snd (playSetup noPlayOptions p)"
    by (intro playSetup_snd_cong) simp_all
  with u_play_Done[OF a2 u] n2 rm w1
  have snt: "sent w' = sent w @ [(node p, OpStop (guildId (options p))),
                                 (node p, OpPlay (guildId (options p)) (track t)
                                            (snd (playSetup noPlayOptions p)))]"
    by simp
  have ck: "clock ?w = Suc (clock w) + length (queue p)" by simp
  from resolveEntry_queue[OF r]
  have "queue p2 = ?q[0 := ETrack t]
        \<and> (elemAt ?q 0 = Some (ETrack t)
            \<or> (\<exists>tp. elemAt ?q 0 = Some (EPartial tp)
                  \<and> resolveTrack (Canonicalize env)
                       (searchAt env (Suc (clock w) + length (queue p))) tp = Inr t))"
  proof
    assume h: "queue p2 = queue ?p \<and> w2 = ?w \<and> (\<forall>tp. elemAt (queue ?p) 0 \<noteq> Some (EPartial tp))"
    with e2 have "?q ! 0 = ETrack t" "elemAt ?q 0 = Some (ETrack t)"
      by (auto simp: elemAt_def split: if_splits)
    moreover from this(1) have "?q[0 := ETrack t] = ?q" by (metis list_update_id)
    ultimately show ?thesis using h by simp
  next
    assume "\<exists>t' tp. queue p2 = (queue ?p)[0 := ETrack t'] \<and> elemAt (queue ?p) 0 = Some (EPartial tp)
            \<and> resolveTrack (Canonicalize env) (searchAt env (clock ?w)) tp = Inr t'"
    then obtain t' tp where h: "queue p2 = ?q[0 := ETrack t']" "elemAt ?q 0 = Some (EPartial tp)"
        "resolveTrack (Canonicalize env) (searchAt env (clock ?w)) tp = Inr t'"
      by auto
    from h(1) h(2) e2 have "t' = t" by (auto simp: elemAt_def split: if_splits)
    with h ck show ?thesis by simp
  qed
  with ms qp tt snt mset_eq_length[OF ms] show ?thesis by (intro exI[of _ ?q] exI[of _ t]) auto
qed

text \<open>
  The theorem at the example player, with every draw 0: the unresolved entry comes to
  the front and is replaced by the track it resolves to, and the stop frame and the play
  frame of that track are sent.
\<close>

theorem shuffle_permutes_then_resolves_witness:
  "(\<forall>k. 0 \<le> mathRandom exEnv k \<and> mathRandom exEnv k < 1)
   \<and> fst (shuffle exEnv exPlayer exWorld) = Done
   \<and> queue (fst (snd (shuffle exEnv exPlayer exWorld))) = [ETrack exA, ETrack exA]
   \<and> queuePosition (fst (snd (shuffle exEnv exPlayer exWorld))) = Some 0
   \<and> length (queue (fst (snd (shuffle exEnv exPlayer exWorld)))) = length (queue exPlayer)
   \<and> sent (snd (snd (shuffle exEnv exPlayer exWorld)))
        = [(0, OpStop ''G''), (0, OpPlay ''G'' ''QAAA'' noPlayOptions)]"
proof -
  let ?s = "shuffle exEnv exPlayer exWorld"
  have s: "?s = (Done, fst (snd ?s), snd (snd ?s))" using ex_shuffle by (metis prod.collapse)
  have rnd: "\<forall>k. 0 \<le> mathRandom exEnv k \<and> mathRandom exEnv k < 1" by (simp add: exEnv_def)
  have w0: "sent exWorld = []" "node exPlayer = 0" "guildId (options exPlayer) = ''G''"
      "track exA = ''QAAA''" "length (queue exPlayer) = 2"
    by (simp_all add: exWorld_def exPlayer_def exOptions_def exA_def)
  have ps: "snd (playSetup noPlayOptions exPlayer) = noPlayOptions"
    by (simp add: playSetup_def noPlayOptions_def exPlayer_def Let_def)
  from shuffle_permutes_then_resolves[OF s rnd]
  obtain q t where h: "queue (fst (snd ?s)) = q[0 := ETrack t]" "mset q = mset (queue exPlayer)"
      "queuePosition (fst (snd ?s)) = Some 0" "length (queue (fst (snd ?s))) = length (queue exPlayer)"
      "sent (snd (snd ?s)) = sent exWorld @ [(node exPlayer, OpStop (guildId (options exPlayer))),
          (node exPlayer, OpPlay (guildId (options exPlayer)) (track t) (snd (playSetup noPlayOptions exPlayer)))]"
    by blast
  from h(2) have "length q = 2" using w0(5) by (metis size_mset)
  with h(1) ex_shuffle_queue have "t = exA" by (cases q) auto
  with h w0 ps rnd ex_shuffle ex_shuffle_queue show ?thesis by simp
qed


text \<open>
  The claim as stated fails there: the unresolved entry of the queue is replaced by the
  track it resolves to, so the multiset of entries after \<open>shuffle\<close> is not the one before.
\<close>

theorem shuffle_multiset_counterexample:
  "fst (shuffle exEnv exPlayer exWorld) = Done
   \<and> mset (queue (fst (snd (shuffle exEnv exPlayer exWorld)))) \<noteq> mset (queue exPlayer)"
proof -
  have "EPartial exHint \<in># mset (queue exPlayer)" by (simp add: exPlayer_def)
  moreover have "EPartial exHint \<notin># mset (queue (fst (snd (shuffle exEnv exPlayer exWorld))))"
    by (simp add: ex_shuffle_queue)
  ultimately show ?thesis using ex_shuffle by metis
qed

section \<open>\<open>destroy\<close> twice\<close>

lemma leaveIfJoined_frame:
  "leaveIfJoined p w = (p', w') \<Longrightarrow>
     state p' = state p \<and> queue p' = queue p \<and> queuePosition p' = queuePosition p
     \<and> position p' = position p \<and> listeners p' = listeners p
     \<and> connectListeners p' = connectListeners p \<and> options p' = options p \<and> node p' = node p
     \<and> currentVoiceChannel p' = currentVoiceChannel p
     \<and> nodes w' = nodes w \<and> players w' = players w \<and> sent w' = sent w
     \<and> events w' = events w \<and> clock w' = clock w \<and> nodePool w' = nodePool w"
  by (auto simp: leaveIfJoined_def voidDisconnect_def split: if_splits)

lemma send_events:
  "send env nid fr w = (r, w') \<Longrightarrow>
     events w' = events w \<or> (\<exists>e. events w' = events w @ [NODE_ERROR nid e])"
  by (auto simp: send_def Let_def emitNode_def split: if_splits option.splits)

lemma send_sent:
  "send env nid fr w = (r, w') \<Longrightarrow>
     sent w' = (if nodeState (nodes w nid) = NS_CONNECTED \<and> ws (nodes w nid)
                   \<and> wsError env (clock w) = None
                then sent w @ [(nid, fr)] else sent w)"
  by (auto simp: send_def Let_def emitNode_def split: if_splits option.splits)

lemma onDestroy_frame:
  "onDestroy reason p w = (p', w') \<Longrightarrow>
     state p' = state p \<and> queue p' = queue p \<and> queuePosition p' = queuePosition p
     \<and> position p' = position p \<and> listeners p' = listeners p
     \<and> connectListeners p' = connectListeners p \<and> options p' = options p \<and> node p' = node p
     \<and> currentVoiceChannel p' = currentVoiceChannel p
     \<and> nodes w' = nodes w \<and> players w' = players w \<and> sent w' = sent w
     \<and> clock w' = clock w \<and> nodePool w' = nodePool w"
  by (auto simp: onDestroy_def emitPlayer_def split: prod.splits if_splits dest: leaveIfJoined_frame)

lemma destroy_fields:
  assumes "destroy env reason p w = (p', w')"
  shows "state p' = DESTROYED \<and> queue p' = [] \<and> queuePosition p' = None \<and> position p' = None
         \<and> \<not> listeners p' \<and> \<not> connectListeners p' \<and> options p' = options p \<and> node p' = node p
         \<and> currentVoiceChannel p' = currentVoiceChannel p
         \<and> nodes w' = nodes w \<and> nodePool w' = nodePool w
         \<and> players w' = filter (\<lambda>(g, a). g \<noteq> guildId (options p)) (players w)"
proof -
  obtain p1 w1 where l: "leaveIfJoined p w = (p1, w1)" by (cases "leaveIfJoined p w") auto
  obtain r w2 where s: "send env (node p1) (OpDestroy (guildId (options p1))) w1 = (r, w2)"
    by (cases "send env (node p1) (OpDestroy (guildId (options p1))) w1") auto
  let ?p2 = "p1\<lparr>queue := [], queuePosition := None, position := None, state := DESTROYED\<rparr>"
  let ?w3 = "emitPlayer ?p2 (PLAYER_DESTROYED (guildId (options p1)) reason) w2"
  have w3: "nodes ?w3 = nodes w2" "players ?w3 = players w2" "nodePool ?w3 = nodePool w2"
    by (simp_all add: emitPlayer_def)
  note lf = leaveIfJoined_frame[OF l]
  note sf = send_frame[OF s]
  show ?thesis
  proof (cases "connectListeners p1")
    case True
    obtain p3 w4 where o: "onDestroy reason ?p2 ?w3 = (p3, w4)"
      by (cases "onDestroy reason ?p2 ?w3") auto
    from assms have "p' = p3\<lparr>listeners := False, connectListeners := False\<rparr>
        \<and> w' = w4\<lparr>players := filter (\<lambda>(g, a). g \<noteq> guildId (options p3)) (players w4)\<rparr>"
      unfolding destroy_def using l s True o by (auto simp: Let_def)
    with onDestroy_frame[OF o] lf sf w3 show ?thesis by simp
  next
    case False
    from assms have "p' = ?p2\<lparr>listeners := False, connectListeners := False\<rparr>
        \<and> w' = ?w3\<lparr>players := filter (\<lambda>(g, a). g \<noteq> guildId (options p1)) (players ?w3)\<rparr>"
      unfolding destroy_def using l s False by (auto simp: Let_def)
    with lf sf w3 show ?thesis by simp
  qed
qed

lemma Player_fixed:
  "state p = DESTROYED \<Longrightarrow> queue p = [] \<Longrightarrow> queuePosition p = None \<Longrightarrow> position p = None
   \<Longrightarrow> p\<lparr>queue := [], queuePosition := None, position := None, state := DESTROYED\<rparr> = p"
  by (cases p) simp

lemma Player_unlistened:
  "\<not> listeners p \<Longrightarrow> \<not> connectListeners p \<Longrightarrow> p\<lparr>listeners := False, connectListeners := False\<rparr> = p"
  by (cases p) simp

lemma World_players_same: "players w = x \<Longrightarrow> w\<lparr>players := x\<rparr> = w"
  by (cases w) simp

lemma filter_twice_key:
  "filter (\<lambda>(g, a). g \<noteq> k) (filter (\<lambda>(g, a). g \<noteq> k) xs) = filter (\<lambda>(g, a). g \<noteq> k) xs"
  by (induction xs) auto

lemma destroy_destroyed:
  assumes "state p = DESTROYED" "queue p = []" "queuePosition p = None" "position p = None"
      "\<not> listeners p" "\<not> connectListeners p"
      "filter (\<lambda>(g, a). g \<noteq> guildId (options p)) (players w) = players w"
  shows "destroy env reason p w =
          (fst (leaveIfJoined p w),
           snd (send env (node p) (OpDestroy (guildId (options p))) (snd (leaveIfJoined p w))))"
proof -
  obtain p1 w1 where l: "leaveIfJoined p w = (p1, w1)" by (cases "leaveIfJoined p w") auto
  obtain r w2 where s: "send env (node p1) (OpDestroy (guildId (options p1))) w1 = (r, w2)"
    by (cases "send env (node p1) (OpDestroy (guildId (options p1))) w1") auto
  note lf = leaveIfJoined_frame[OF l]
  from lf assms have fx: "p1\<lparr>queue := [], queuePosition := None, position := None, state := DESTROYED\<rparr> = p1"
    by (intro Player_fixed) simp_all
  from lf assms have ul: "p1\<lparr>listeners := False, connectListeners := False\<rparr> = p1"
    by (intro Player_unlistened) simp_all
  from lf send_frame[OF s] assms(7)
  have pl: "w2\<lparr>players := filter (\<lambda>(g, a). g \<noteq> guildId (options p1)) (players w2)\<rparr> = w2"
    by (intro World_players_same) simp
  from lf assms have nl: "\<not> listeners p1" "\<not> connectListeners p1" by simp_all
  have "destroy env reason p w = (p1, w2)"
    unfolding destroy_def using l s fx ul pl nl
    by (simp add: Let_def emitPlayer_def)
  with l s lf show ?thesis by simp
qed

text \<open>
  C8, as amended. A second \<open>destroy()\<close> right after a first one does not throw and
  leaves the player destroyed with its queue, queue position and position unchanged, the
  manager's player table and the node objects unchanged, and no event of the player
  reaches the manager. It is not without effect: it calls \<open>node.send\<close> with the destroy
  payload again, which writes the payload once more when the node is connected (or adds
  the node's error event when that write fails), and it sends the leave frame to the
  gateway again while \<open>currentVoiceChannel\<close> is still set.
\<close>

theorem destroy_twice:
  assumes "destroy env r1 p w = (p1, w1)" and "destroy env r2 p1 w1 = (p2, w2)"
  shows "state p1 = DESTROYED \<and> state p2 = DESTROYED
       \<and> queue p2 = queue p1 \<and> queuePosition p2 = queuePosition p1 \<and> position p2 = position p1
       \<and> players w2 = players w1 \<and> nodes w2 = nodes w1
       \<and> (events w2 = events w1 \<or> (\<exists>e. events w2 = events w1 @ [NODE_ERROR (node p1) e]))
       \<and> sent w2 = (if nodeState (nodes w1 (node p1)) = NS_CONNECTED \<and> ws (nodes w1 (node p1))
                        \<and> wsError env (clock w1) = None
                     then sent w1 @ [(node p1, OpDestroy (guildId (options p1)))] else sent w1)
       \<and> gatewaySent w2 = (if truthyStr (currentVoiceChannel p1)
                     then gatewaySent w1 @ [VoiceStateUpdate (guildId (options p1)) None False False]
                     else gatewaySent w1)"
proof -
  note f1 = destroy_fields[OF assms(1)]
  note f2 = destroy_fields[OF assms(2)]
  from f1 have idem: "filter (\<lambda>(g, a). g \<noteq> guildId (options p1)) (players w1) = players w1"
    by (simp add: filter_twice_key)
  from f1 have d: "destroy env r2 p1 w1 =
          (fst (leaveIfJoined p1 w1),
           snd (send env (node p1) (OpDestroy (guildId (options p1))) (snd (leaveIfJoined p1 w1))))"
    by (intro destroy_destroyed idem) simp_all
  obtain pa wa where l: "leaveIfJoined p1 w1 = (pa, wa)" by (cases "leaveIfJoined p1 w1") auto
  obtain r wb where s: "send env (node p1) (OpDestroy (guildId (options p1))) wa = (r, wb)"
    by (cases "send env (node p1) (OpDestroy (guildId (options p1))) wa") auto
  from d l s assms(2) have eq: "p2 = pa" "w2 = wb" by simp_all
  note lf = leaveIfJoined_frame[OF l]
  have gw: "gatewaySent wa = (if truthyStr (currentVoiceChannel p1)
                     then gatewaySent w1 @ [VoiceStateUpdate (guildId (options p1)) None False False]
                     else gatewaySent w1)"
    using l by (auto simp: leaveIfJoined_def voidDisconnect_def split: if_splits)
  from send_events[OF s] send_sent[OF s] send_frame[OF s] lf gw f1 f2 eq idem
  show ?thesis by simp
qed

lemmas d_defs = destroy_def leaveIfJoined_def voidDisconnect_def onDestroy_def emitPlayer_def
  send_def truthyStr_def Let_def

lemma ex_destroy_once: "sent (snd exDestroyed) = [(0, OpDestroy ''G'')]"
  by (simp add: exDestroyed_def d_defs exEnv_def exWorld_def exPlayer_def exNode_def exOptions_def)

lemma ex_destroy_twice:
  "sent (snd (destroy exEnv ''Manual destroy'' (fst exDestroyed) (snd exDestroyed)))
     = [(0, OpDestroy ''G''), (0, OpDestroy ''G'')]"
  by (simp add: exDestroyed_def d_defs exEnv_def exWorld_def exPlayer_def exNode_def exOptions_def)


text \<open>The theorem at the example player, destroyed twice.\<close>

theorem destroy_twice_witness:
  "destroy exEnv ''Manual destroy'' exPlayer exWorld = exDestroyed
   \<and> state (fst exDestroyed) = DESTROYED
   \<and> state (fst (destroy exEnv ''Manual destroy'' (fst exDestroyed) (snd exDestroyed))) = DESTROYED
   \<and> queue (fst (destroy exEnv ''Manual destroy'' (fst exDestroyed) (snd exDestroyed))) = []
   \<and> players (snd (destroy exEnv ''Manual destroy'' (fst exDestroyed) (snd exDestroyed))) = []"
proof -
  let ?d2 = "destroy exEnv ''Manual destroy'' (fst exDestroyed) (snd exDestroyed)"
  have 1: "destroy exEnv ''Manual destroy'' exPlayer exWorld = (fst exDestroyed, snd exDestroyed)"
    by (simp add: exDestroyed_def)
  have 2: "?d2 = (fst ?d2, snd ?d2)" by simp
  have q: "queue (fst exDestroyed) = []" "players (snd exDestroyed) = []"
    by (simp_all add: exDestroyed_def d_defs exEnv_def exWorld_def exPlayer_def exNode_def exOptions_def)
  note T = destroy_twice[OF 1 2]
  note s1 = T[THEN conjunct1]
  note s2 = T[THEN conjunct2, THEN conjunct1]
  note s3 = T[THEN conjunct2, THEN conjunct2, THEN conjunct1]
  note s6 = T[THEN conjunct2, THEN conjunct2, THEN conjunct2, THEN conjunct2, THEN conjunct2,
              THEN conjunct1]
  have "destroy exEnv ''Manual destroy'' exPlayer exWorld = exDestroyed" by (simp add: exDestroyed_def)
  with s1 s2 s3 s6 q show ?thesis by simp
qed

text \<open>
  The claim as stated fails there: the node is connected, and the second \<open>destroy()\<close>
  writes a second destroy payload to it.
\<close>

theorem destroy_twice_counterexample:
  "sent (snd (destroy exEnv ''Manual destroy'' (fst exDestroyed) (snd exDestroyed)))
     = sent (snd exDestroyed) @ [(0, OpDestroy ''G'')]
   \<and> sent (snd (destroy exEnv ''Manual destroy'' (fst exDestroyed) (snd exDestroyed)))
     \<noteq> sent (snd exDestroyed)"
  by (simp add: ex_destroy_once ex_destroy_twice)

section \<open>\<open>_handleMove\<close>\<close>

lemmas m_defs = u_handleMove_def active_def recordMove_def

text \<open>
  C5. The claim: after \<open>_handleMove\<close> with channel \<open>c\<close> and data \<open>d\<close> the player's
  \<open>currentVoiceChannel\<close> is \<open>c\<close> and its \<open>lastVoiceState\<close> is \<open>d\<close>, whatever branch
  was taken. The two destroy branches of an active player return before the two
  assignments: the example player (connected in channel V, move behaviour destroy) is
  moved to channel W; afterwards it is destroyed, its channel is still V and its last
  voice state still absent, and once the pending disconnect has run its channel is null.
\<close>

theorem handleMove_destroy_skips_record:
  "fst exMoved = Done
   \<and> state (fst (snd exMoved)) = DESTROYED
   \<and> currentVoiceChannel (fst (snd exMoved)) = Some ''V''
   \<and> lastVoiceState (fst (snd exMoved)) = None
   \<and> currentVoiceChannel (fst (snd exMoved)) \<noteq> Some ''W''
   \<and> lastVoiceState (fst (snd exMoved)) \<noteq> Some exVoice
   \<and> pending (fst (snd exMoved)) = [DisconnectDone]
   \<and> (case runTask 0 exEnv DisconnectDone (fst (snd exMoved)) (snd (snd exMoved)) of
         Some (c, p, w) \<Rightarrow> currentVoiceChannel p = None \<and> lastVoiceState p = None
       | None \<Rightarrow> False)"
  by (simp add: exMoved_def exVoice_def m_defs d_defs runTask_def
        exEnv_def exWorld_def exPlayer_def exNode_def exOptions_def)

text \<open>The sibling branch: a wrong channel while connecting destroys and still records.\<close>

lemma handleMove_connecting_records:
  "state p = CONNECTING \<Longrightarrow> u_handleMove env c d p w = (r, p', w') \<Longrightarrow>
   r = Done \<and> currentVoiceChannel p' = c \<and> lastVoiceState p' = Some d"
  by (auto simp: u_handleMove_def active_def recordMove_def Let_def split: if_splits)

section \<open>\<open>Node.destroy\<close> and the reconnect cap\<close>

lemma onDestroy_events:
  "onDestroy reason p w = (p', w') \<Longrightarrow> set (events w) \<subseteq> set (events w')"
  by (auto simp: onDestroy_def emitPlayer_def split: prod.splits if_splits dest: leaveIfJoined_frame)

lemma send_events_mono: "send env nid fr w = (r, w') \<Longrightarrow> set (events w) \<subseteq> set (events w')"
  using send_events[of env nid fr w r w'] by auto

lemma destroy_events:
  assumes "destroy env reason p w = (p', w')"
  shows "set (events w) \<subseteq> set (events w')
         \<and> (listeners p \<longrightarrow> PLAYER_DESTROYED (guildId (options p)) reason \<in> set (events w'))"
proof -
  obtain p1 w1 where l: "leaveIfJoined p w = (p1, w1)" by (cases "leaveIfJoined p w") auto
  obtain r w2 where s: "send env (node p1) (OpDestroy (guildId (options p1))) w1 = (r, w2)"
    by (cases "send env (node p1) (OpDestroy (guildId (options p1))) w1") auto
  let ?p2 = "p1\<lparr>queue := [], queuePosition := None, position := None, state := DESTROYED\<rparr>"
  let ?w3 = "emitPlayer ?p2 (PLAYER_DESTROYED (guildId (options p1)) reason) w2"
  note lf = leaveIfJoined_frame[OF l]
  have w3: "set (events w2) \<subseteq> set (events ?w3)"
       "listeners p1 \<longrightarrow> PLAYER_DESTROYED (guildId (options p1)) reason \<in> set (events ?w3)"
    by (auto simp: emitPlayer_def)
  have w2: "set (events w) \<subseteq> set (events w2)" using send_events_mono[OF s] lf by simp
  show ?thesis
  proof (cases "connectListeners p1")
    case True
    obtain p3 w4 where o: "onDestroy reason ?p2 ?w3 = (p3, w4)"
      by (cases "onDestroy reason ?p2 ?w3") auto
    from assms have "events w' = events w4"
      unfolding destroy_def using l s True o by (auto simp: Let_def)
    with onDestroy_events[OF o] w3 w2 lf show ?thesis by auto
  next
    case False
    from assms have "events w' = events ?w3"
      unfolding destroy_def using l s False by (auto simp: Let_def)
    with w3 w2 lf show ?thesis by auto
  qed
qed

lemma destroyPlayers_Cons:
  "destroyPlayers env ((g, a) # bs) (h, w) =
     destroyPlayers env bs
       (h(a := fst (destroy env ''Attached node destroyed'' (h a) w)),
        snd (destroy env ''Attached node destroyed'' (h a) w))"
  by (simp add: destroyPlayers_def split: prod.splits)

lemma destroyPlayers_Nil: "destroyPlayers env [] hw = hw"
  by (simp add: destroyPlayers_def)

lemma destroy_world:
  "nodes (snd (destroy env r p w)) = nodes w \<and> nodePool (snd (destroy env r p w)) = nodePool w
   \<and> set (events w) \<subseteq> set (events (snd (destroy env r p w)))
   \<and> state (fst (destroy env r p w)) = DESTROYED"
  using destroy_fields[of env r p w "fst (destroy env r p w)" "snd (destroy env r p w)"]
        destroy_events[of env r p w "fst (destroy env r p w)" "snd (destroy env r p w)"]
  by simp

lemma dp_world:
  "nodes (snd (destroyPlayers env bs (h, w))) = nodes w
   \<and> nodePool (snd (destroyPlayers env bs (h, w))) = nodePool w
   \<and> set (events w) \<subseteq> set (events (snd (destroyPlayers env bs (h, w))))"
proof (induction bs arbitrary: h w)
  case Nil
  then show ?case by (simp add: destroyPlayers_Nil)
next
  case (Cons b bs)
  obtain g a' where b: "b = (g, a')" by (cases b)
  define h' where "h' = h(a' := fst (destroy env ''Attached node destroyed'' (h a') w))"
  define w' where "w' = snd (destroy env ''Attached node destroyed'' (h a') w)"
  have s: "destroyPlayers env ((g, a') # bs) (h, w) = destroyPlayers env bs (h', w')"
    unfolding h'_def w'_def by (rule destroyPlayers_Cons)
  have f: "nodes w' = nodes w" "nodePool w' = nodePool w" "set (events w) \<subseteq> set (events w')"
    unfolding w'_def using destroy_world[of env "''Attached node destroyed''" "h a'" w] by simp_all
  have d: "state (h' a') = DESTROYED"
    unfolding h'_def using destroy_world[of env "''Attached node destroyed''" "h a'" w] by simp
  have o: "h' x = h x" if "x \<noteq> a'" for x unfolding h'_def using that by simp
  from Cons.IH[of h' w'] f show ?case unfolding b s by auto
qed

lemma dp_keep:
  "state (h a) = DESTROYED \<Longrightarrow> state (fst (destroyPlayers env bs (h, w)) a) = DESTROYED"
proof (induction bs arbitrary: h w)
  case Nil
  then show ?case by (simp add: destroyPlayers_Nil)
next
  case (Cons b bs)
  obtain g a' where b: "b = (g, a')" by (cases b)
  define h' where "h' = h(a' := fst (destroy env ''Attached node destroyed'' (h a') w))"
  define w' where "w' = snd (destroy env ''Attached node destroyed'' (h a') w)"
  have s: "destroyPlayers env ((g, a') # bs) (h, w) = destroyPlayers env bs (h', w')"
    unfolding h'_def w'_def by (rule destroyPlayers_Cons)
  have f: "nodes w' = nodes w" "nodePool w' = nodePool w" "set (events w) \<subseteq> set (events w')"
    unfolding w'_def using destroy_world[of env "''Attached node destroyed''" "h a'" w] by simp_all
  have d: "state (h' a') = DESTROYED"
    unfolding h'_def using destroy_world[of env "''Attached node destroyed''" "h a'" w] by simp
  have o: "h' x = h x" if "x \<noteq> a'" for x unfolding h'_def using that by simp
  have "state (h' a) = DESTROYED"
  proof (cases "a = a'")
    case True
    with d show ?thesis by simp
  next
    case False
    with o[of a] Cons.prems show ?thesis by simp
  qed
  then have "state (fst (destroyPlayers env bs (h', w')) a) = DESTROYED" by (rule Cons.IH)
  then show ?case unfolding b s .
qed

lemma dp_untouched:
  "a \<notin> snd ` set bs \<Longrightarrow> fst (destroyPlayers env bs (h, w)) a = h a"
proof (induction bs arbitrary: h w)
  case Nil
  then show ?case by (simp add: destroyPlayers_Nil)
next
  case (Cons b bs)
  obtain g a' where b: "b = (g, a')" by (cases b)
  define h' where "h' = h(a' := fst (destroy env ''Attached node destroyed'' (h a') w))"
  define w' where "w' = snd (destroy env ''Attached node destroyed'' (h a') w)"
  have s: "destroyPlayers env ((g, a') # bs) (h, w) = destroyPlayers env bs (h', w')"
    unfolding h'_def w'_def by (rule destroyPlayers_Cons)
  have f: "nodes w' = nodes w" "nodePool w' = nodePool w" "set (events w) \<subseteq> set (events w')"
    unfolding w'_def using destroy_world[of env "''Attached node destroyed''" "h a'" w] by simp_all
  have d: "state (h' a') = DESTROYED"
    unfolding h'_def using destroy_world[of env "''Attached node destroyed''" "h a'" w] by simp
  have o: "h' x = h x" if "x \<noteq> a'" for x unfolding h'_def using that by simp
  from Cons.prems b have ne: "a \<noteq> a'" and rest: "a \<notin> snd ` set bs" by auto
  have "fst (destroyPlayers env bs (h', w')) a = h' a" using rest by (rule Cons.IH)
  with o[OF ne] show ?case unfolding b s by simp
qed

lemma dp_destroys:
  "a \<in> snd ` set bs \<Longrightarrow>
     state (fst (destroyPlayers env bs (h, w)) a) = DESTROYED
     \<and> (listeners (h a) \<longrightarrow>
          PLAYER_DESTROYED (guildId (options (h a))) ''Attached node destroyed''
            \<in> set (events (snd (destroyPlayers env bs (h, w)))))"
proof (induction bs arbitrary: h w)
  case Nil
  then show ?case by simp
next
  case (Cons b bs)
  obtain g a' where b: "b = (g, a')" by (cases b)
  define h' where "h' = h(a' := fst (destroy env ''Attached node destroyed'' (h a') w))"
  define w' where "w' = snd (destroy env ''Attached node destroyed'' (h a') w)"
  have s: "destroyPlayers env ((g, a') # bs) (h, w) = destroyPlayers env bs (h', w')"
    unfolding h'_def w'_def by (rule destroyPlayers_Cons)
  have f: "nodes w' = nodes w" "nodePool w' = nodePool w" "set (events w) \<subseteq> set (events w')"
    unfolding w'_def using destroy_world[of env "''Attached node destroyed''" "h a'" w] by simp_all
  have d: "state (h' a') = DESTROYED"
    unfolding h'_def using destroy_world[of env "''Attached node destroyed''" "h a'" w] by simp
  have o: "h' x = h x" if "x \<noteq> a'" for x unfolding h'_def using that by simp
  have e: "listeners (h a') \<longrightarrow>
       PLAYER_DESTROYED (guildId (options (h a'))) ''Attached node destroyed'' \<in> set (events w')"
    unfolding w'_def
    using destroy_events[of env "''Attached node destroyed''" "h a'" w
            "fst (destroy env ''Attached node destroyed'' (h a') w)"
            "snd (destroy env ''Attached node destroyed'' (h a') w)"] by simp
  show ?case
  proof (cases "a = a'")
    case True
    have k: "state (fst (destroyPlayers env bs (h', w')) a) = DESTROYED"
      using d True by (intro dp_keep) simp
    have m: "set (events w') \<subseteq> set (events (snd (destroyPlayers env bs (h', w'))))"
      using dp_world[of env bs h' w'] by simp
    from k m e True show ?thesis unfolding b s by auto
  next
    case False
    with Cons.prems b have "a \<in> snd ` set bs" by auto
    from Cons.IH[OF this, of h' w'] o[OF False] show ?thesis unfolding b s by simp
  qed
qed

lemma Node_destroy_effect:
  assumes "Node_destroy env reason nid heap w = (heap', w')"
  shows "nodeState (nodes w' nid) = NS_DESTROYED \<and> nid \<notin> set (nodePool w')
     \<and> \<not> reconnectTimeout (nodes w' nid)
     \<and> (\<forall>(g, a) \<in> set (players w).
           identifier_n (nodes w (node (heap a))) = identifier_n (nodes w nid)
           \<longrightarrow> state (heap' a) = DESTROYED
               \<and> (listeners (heap a) \<longrightarrow>
                    PLAYER_DESTROYED (guildId (options (heap a))) ''Attached node destroyed''
                      \<in> set (events w')))"
proof -
  let ?n1 = "(nodes w nid)\<lparr>ws := False, reconnectAttempts := 0, reconnectTimeout := False\<rparr>"
  let ?w1 = "w\<lparr>nodes := (nodes w)(nid := ?n1)\<rparr>"
  let ?bound = "filter (\<lambda>(g, a). identifier_n (nodes ?w1 (node (heap a))) = identifier_n ?n1) (players ?w1)"
  let ?r = "destroyPlayers env ?bound (heap, ?w1)"
  let ?n2 = "(nodes (snd ?r) nid)\<lparr>nodeState := NS_DESTROYED\<rparr>"
  let ?w3 = "emitNode ?n2 (NODE_DESTROYED nid reason) ((snd ?r)\<lparr>nodes := (nodes (snd ?r))(nid := ?n2)\<rparr>)"
  have eq: "Node_destroy env reason nid heap w =
          (fst ?r, ?w3\<lparr>nodes := (nodes ?w3)(nid := ?n2\<lparr>nodeListeners := False\<rparr>),
                       nodePool := removeAll nid (nodePool ?w3)\<rparr>)"
    by (simp add: Node_destroy_def Let_def split: prod.splits)
  from assms[unfolded eq] have h': "heap' = fst ?r"
    and w': "w' = ?w3\<lparr>nodes := (nodes ?w3)(nid := ?n2\<lparr>nodeListeners := False\<rparr>),
                      nodePool := removeAll nid (nodePool ?w3)\<rparr>"
    by blast+
  have ev3: "set (events (snd ?r)) \<subseteq> set (events ?w3)" by (auto simp: emitNode_def)
  have ev: "set (events (snd ?r)) \<subseteq> set (events w')" using ev3 unfolding w' by simp
  have st: "nodeState (nodes w' nid) = NS_DESTROYED" unfolding w' by simp
  have pool: "nid \<notin> set (nodePool w')" unfolding w' by simp
  have "nodes (snd ?r) = nodes ?w1" using dp_world[of env ?bound heap ?w1] by simp
  then have rt: "\<not> reconnectTimeout (nodes w' nid)" unfolding w' by simp
  have idn: "identifier_n (nodes ?w1 x) = identifier_n (nodes w x)" for x by simp
  have "state (heap' a) = DESTROYED
        \<and> (listeners (heap a) \<longrightarrow>
              PLAYER_DESTROYED (guildId (options (heap a))) ''Attached node destroyed'' \<in> set (events w'))"
    if "(g, a) \<in> set (players w)"
       "identifier_n (nodes w (node (heap a))) = identifier_n (nodes w nid)" for g a
  proof -
    from that have "(g, a) \<in> set ?bound" by simp
    then have "a \<in> snd ` set ?bound" by force
    from dp_destroys[OF this, of env heap ?w1] ev h' show ?thesis by auto
  qed
  with st pool rt show ?thesis by auto
qed

lemma retrying_not_cap:
  assumes "retrying nid w0 w k" "maxRetrys (nodeOptions (nodes w0 nid)) = Some m"
      "m = 0 \<or> int (reconnectAttempts (nodes w0 nid) + k) < m"
  shows "\<not> capReached (nodes w nid)"
  using assms by (auto simp: retrying_def capReached_def)

lemma failedAttempt_retrying:
  assumes r: "retrying nid w0 w k" and nc: "\<not> capReached (nodes w nid)"
  shows "\<exists>w'. failedAttempt env nid f (h, w) = (h, w') \<and> retrying nid w0 w' (Suc k)"
proof -
  from r have rt: "reconnectTimeout (nodes w nid)" by (simp add: retrying_def)
  show ?thesis
  proof (cases f)
    case (SocketError e)
    with r nc rt show ?thesis
      by (simp add: failedAttempt_def reconnectTick_def connectFailed_def Let_def emitNode_def
            retrying_def)
  next
    case TimedOut
    with r nc rt show ?thesis
      by (simp add: failedAttempt_def reconnectTick_def connectFailed_def Let_def emitNode_def
            retrying_def)
  qed
qed

lemma failedAttempts_snoc:
  "failedAttempts env nid (fs @ [f]) hw = failedAttempt env nid f (failedAttempts env nid fs hw)"
  by (simp add: failedAttempts_def)

lemma failedAttempts_retrying:
  assumes "retrying nid w0 w0 0" "maxRetrys (nodeOptions (nodes w0 nid)) = Some m"
  shows "m = 0 \<or> int (reconnectAttempts (nodes w0 nid) + length fs) \<le> m \<Longrightarrow>
         \<exists>w'. failedAttempts env nid fs (h, w0) = (h, w') \<and> retrying nid w0 w' (length fs)"
proof (induction fs rule: rev_induct)
  case Nil
  with assms(1) show ?case by (simp add: failedAttempts_def)
next
  case (snoc f fs)
  from snoc.prems have "m = 0 \<or> int (reconnectAttempts (nodes w0 nid) + length fs) \<le> m" by auto
  from snoc.IH[OF this] obtain w1 where
    1: "failedAttempts env nid fs (h, w0) = (h, w1)" and 2: "retrying nid w0 w1 (length fs)"
    by auto
  from snoc.prems have "m = 0 \<or> int (reconnectAttempts (nodes w0 nid) + length fs) < m" by auto
  from retrying_not_cap[OF 2 assms(2) this] have "\<not> capReached (nodes w1 nid)" .
  from failedAttempt_retrying[OF 2 this, of env f h] 1 show ?case
    by (simp add: failedAttempts_snoc)
qed

lemma reconnect_retrying:
  "retrying nid (reconnect nid w) (reconnect nid w) 0"
  by (simp add: retrying_def reconnect_def)

lemma reconnect_frame:
  "players (reconnect nid w) = players w
   \<and> identifier_n (nodes (reconnect nid w) x) = identifier_n (nodes w x)
   \<and> nodeOptions (nodes (reconnect nid w) nid) = nodeOptions (nodes w nid)
   \<and> reconnectAttempts (nodes (reconnect nid w) nid) = reconnectAttempts (nodes w nid)"
  by (simp add: reconnect_def)

lemma tick_retry:
  assumes "retrying nid w0 w k" "\<not> capReached (nodes w nid)"
  shows "\<exists>w'. reconnectTick env nid h w = (h, w') \<and> nodeState (nodes w' nid) = NS_RECONNECTING
              \<and> reconnectAttempts (nodes w' nid) = reconnectAttempts (nodes w nid)"
  using assms by (simp add: reconnectTick_def Let_def emitNode_def retrying_def)

lemma tick_cap:
  assumes "retrying nid w0 w k" "capReached (nodes w nid)"
  shows "reconnectTick env nid h w =
           Node_destroy env ''Manual destroy'' nid h
             (emitNode (nodes w nid)
                (NODE_ERROR nid (ErrorN ''Unable to reconnect after '' (reconnectAttempts (nodes w nid)) '' attempts.'')) w)"
  using assms by (simp add: reconnectTick_def Let_def retrying_def)

text \<open>
  C3. A reconnect starts with the counter at 0 and \<open>maxRetrys = m\<close>; each element of
  \<open>fs\<close> is one failed attempt, and then the interval fires once more. When \<open>m > 0\<close> and
  \<open>m\<close> attempts have failed (3 for \<open>maxRetrys = 3\<close>), that run of the interval destroys
  the node: its state is destroyed, it has left the pool, the interval is cleared (a
  further run does nothing), and every player of the
  manager's table bound to a node of this identifier is destroyed, the manager receiving
  its destroyed event with the reason \<open>Attached node destroyed\<close>. With fewer failures
  than \<open>m\<close> the node goes on reconnecting. With \<open>m = 0\<close> the node goes on reconnecting
  after any number of failures and no player is touched.
\<close>

theorem reconnect_cap_destroys:
  assumes mr: "maxRetrys (nodeOptions (nodes w nid)) = Some m"
      and a0: "reconnectAttempts (nodes w nid) = 0"
      and fa: "failedAttempts env nid fs (heap, reconnect nid w) = (h1, w1)"
      and tk: "reconnectTick env nid h1 w1 = (h2, w2)"
  shows "(0 < m \<and> int (length fs) = m \<longrightarrow>
            nodeState (nodes w2 nid) = NS_DESTROYED \<and> nid \<notin> set (nodePool w2)
            \<and> reconnectTick env nid h2 w2 = (h2, w2)
            \<and> (\<forall>(g, a) \<in> set (players w).
                  identifier_n (nodes w (node (heap a))) = identifier_n (nodes w nid)
                  \<longrightarrow> state (h2 a) = DESTROYED
                      \<and> (listeners (heap a) \<longrightarrow>
                           PLAYER_DESTROYED (guildId (options (heap a))) ''Attached node destroyed''
                             \<in> set (events w2))))
       \<and> (0 < m \<and> int (length fs) < m \<longrightarrow>
            nodeState (nodes w2 nid) = NS_RECONNECTING \<and> h2 = heap)
       \<and> (m = 0 \<longrightarrow>
            nodeState (nodes w2 nid) = NS_RECONNECTING
            \<and> reconnectAttempts (nodes w2 nid) = length fs \<and> h2 = heap)"
proof -
  let ?w0 = "reconnect nid w"
  note rf = reconnect_frame[of nid w]
  from mr rf have mr0: "maxRetrys (nodeOptions (nodes ?w0 nid)) = Some m" by simp
  from a0 rf have at0: "reconnectAttempts (nodes ?w0 nid) = 0" by simp
  have run: "h1 = heap \<and> retrying nid ?w0 w1 (length fs)" if "m = 0 \<or> int (length fs) \<le> m"
  proof -
    from that at0 have "m = 0 \<or> int (reconnectAttempts (nodes ?w0 nid) + length fs) \<le> m" by simp
    from failedAttempts_retrying[OF reconnect_retrying mr0 this, of env heap] fa
    show ?thesis by auto
  qed
  have A: "nodeState (nodes w2 nid) = NS_DESTROYED \<and> nid \<notin> set (nodePool w2)
            \<and> reconnectTick env nid h2 w2 = (h2, w2)
            \<and> (\<forall>(g, a) \<in> set (players w).
                  identifier_n (nodes w (node (heap a))) = identifier_n (nodes w nid)
                  \<longrightarrow> state (h2 a) = DESTROYED
                      \<and> (listeners (heap a) \<longrightarrow>
                           PLAYER_DESTROYED (guildId (options (heap a))) ''Attached node destroyed''
                             \<in> set (events w2)))"
    if m: "0 < m" "int (length fs) = m"
  proof -
    from run m have h1: "h1 = heap" and r: "retrying nid ?w0 w1 (length fs)" by auto
    from r mr0 at0 m have cap: "capReached (nodes w1 nid)"
      by (simp add: retrying_def capReached_def)
    let ?we = "emitNode (nodes w1 nid)
                (NODE_ERROR nid (ErrorN ''Unable to reconnect after '' (reconnectAttempts (nodes w1 nid)) '' attempts.'')) w1"
    from tick_cap[OF r cap, of env h1] tk h1
    have nd: "Node_destroy env ''Manual destroy'' nid heap ?we = (h2, w2)" by simp
    have pe: "players ?we = players w" "\<And>x. identifier_n (nodes ?we x) = identifier_n (nodes w x)"
      using r rf by (simp_all add: emitNode_def retrying_def reconnect_def)
    from Node_destroy_effect[OF nd] have "\<not> reconnectTimeout (nodes w2 nid)" by simp
    then have "reconnectTick env nid h2 w2 = (h2, w2)" by (simp add: reconnectTick_def)
    with Node_destroy_effect[OF nd] pe show ?thesis by simp
  qed
  have B: "nodeState (nodes w2 nid) = NS_RECONNECTING \<and> h2 = heap
           \<and> reconnectAttempts (nodes w2 nid) = length fs"
    if m: "m = 0 \<or> int (length fs) < m"
  proof -
    from run m have h1: "h1 = heap" and r: "retrying nid ?w0 w1 (length fs)" by auto
    from m at0 have "m = 0 \<or> int (reconnectAttempts (nodes ?w0 nid) + length fs) < m" by simp
    from retrying_not_cap[OF r mr0 this] have nc: "\<not> capReached (nodes w1 nid)" .
    from tick_retry[OF r nc, of env h1] tk h1 r at0 show ?thesis by (auto simp: retrying_def)
  qed
  from A B show ?thesis by auto
qed

text \<open>
  The theorem at the example node (\<open>maxRetrys = 3\<close>) after three failed attempts, and
  at the same node with \<open>maxRetrys = 0\<close>.
\<close>

theorem reconnect_cap_destroys_witness:
  "maxRetrys (nodeOptions (nodes exWorld 0)) = Some 3
   \<and> reconnectAttempts (nodes exWorld 0) = 0
   \<and> int (length exFailures) = 3
   \<and> nodeState (nodes (snd (exRetried exWorld)) 0) = NS_DESTROYED
   \<and> state (fst (exRetried exWorld) 0) = DESTROYED
   \<and> PLAYER_DESTROYED ''G'' ''Attached node destroyed'' \<in> set (events (snd (exRetried exWorld)))
   \<and> maxRetrys (nodeOptions (nodes exUnlimited 0)) = Some 0
   \<and> nodeState (nodes (snd (exRetried exUnlimited)) 0) = NS_RECONNECTING
   \<and> reconnectAttempts (nodes (snd (exRetried exUnlimited)) 0) = 3"
proof -
  let ?f = "failedAttempts exEnv 0 exFailures (exHeap, reconnect 0 exWorld)"
  let ?g = "failedAttempts exEnv 0 exFailures (exHeap, reconnect 0 exUnlimited)"
  have m3: "maxRetrys (nodeOptions (nodes exWorld 0)) = Some 3"
    and a3: "reconnectAttempts (nodes exWorld 0) = 0"
    by (simp_all add: exWorld_def exNode_def)
  have m0: "maxRetrys (nodeOptions (nodes exUnlimited 0)) = Some 0"
    and a0: "reconnectAttempts (nodes exUnlimited 0) = 0"
    by (simp_all add: exUnlimited_def exWorld_def exNode_def)
  have len: "int (length exFailures) = 3" by (simp add: exFailures_def)
  have f: "?f = (fst ?f, snd ?f)" and g: "?g = (fst ?g, snd ?g)" by simp_all
  have tf: "reconnectTick exEnv 0 (fst ?f) (snd ?f) = (fst (exRetried exWorld), snd (exRetried exWorld))"
    by (simp add: exRetried_def split: prod.splits)
  have tg: "reconnectTick exEnv 0 (fst ?g) (snd ?g) = (fst (exRetried exUnlimited), snd (exRetried exUnlimited))"
    by (simp add: exRetried_def split: prod.splits)
  have pl: "(''G'', 0) \<in> set (players exWorld)"
           "identifier_n (nodes exWorld (node (exHeap 0))) = identifier_n (nodes exWorld 0)"
           "listeners (exHeap 0)" "guildId (options (exHeap 0)) = ''G''"
    by (simp_all add: exWorld_def exHeap_def exPlayer_def exOptions_def)
  note T3 = reconnect_cap_destroys[OF m3 a3 f tf, THEN conjunct1]
  note T0 = reconnect_cap_destroys[OF m0 a0 g tg, THEN conjunct2, THEN conjunct2]
  from T3 len have d: "nodeState (nodes (snd (exRetried exWorld)) 0) = NS_DESTROYED"
    and b: "\<forall>(g, a) \<in> set (players exWorld).
                  identifier_n (nodes exWorld (node (exHeap a))) = identifier_n (nodes exWorld 0)
                  \<longrightarrow> state (fst (exRetried exWorld) a) = DESTROYED
                      \<and> (listeners (exHeap a) \<longrightarrow>
                           PLAYER_DESTROYED (guildId (options (exHeap a))) ''Attached node destroyed''
                             \<in> set (events (snd (exRetried exWorld))))"
    by simp_all
  from bspec[OF b pl(1)] pl have p: "state (fst (exRetried exWorld) 0) = DESTROYED"
      "PLAYER_DESTROYED ''G'' ''Attached node destroyed'' \<in> set (events (snd (exRetried exWorld)))"
    by simp_all
  from T0 have u: "nodeState (nodes (snd (exRetried exUnlimited)) 0) = NS_RECONNECTING"
      "reconnectAttempts (nodes (snd (exRetried exUnlimited)) 0) = length exFailures"
    by simp_all
  from m3 a3 len d p m0 u show ?thesis by (simp add: exFailures_def)
qed

end
